theory Spec2Isabelle
  imports Complex_Main "HOL-Library.AList" "HOL-Library.Word"
begin

unbundle bit_operations_syntax

section \<open>Shared types (types/index.ts)\<close>

text \<open>
  JavaScript numbers that hold scores (confidence, risk, thresholds) are modelled as
  reals; offsets into a string are integers. A string is a list of code units; the
  model covers code units below 256, one \<^typ>\<open>char\<close> each.
\<close>

datatype LogLevel = Level_log | Level_info | Level_warn | Level_error | Level_debug

datatype SensitivityLevel = Public | Internal | Confidential | Restricted

datatype PIIType = CreditCard | SSN | Email | IpAddress | JWT | ApiKey | Password | Phone | Custom

record PIIDetectionResult =
  ptype :: PIIType
  matched :: string
  startIndex :: int
  endIndex :: int
  confidence :: real
  patternName :: string
  highConfidence :: bool

record DataClassification =
  sensitivityLevel :: SensitivityLevel
  detectedTypes :: "PIIType list"
  classConfidence :: real
  classTimestamp :: int
  sanitized :: bool

section \<open>SecurityEngine: risk score and classification\<close>

text \<open>
  \<open>calculateRiskScore\<close>: the loop over the detections keeps the running maximum of
  type risk times confidence, starting from 0.
\<close>

fun typeRisk :: "PIIType \<Rightarrow> real" where
  "typeRisk CreditCard = 0.9"
| "typeRisk SSN = 0.9"
| "typeRisk Password = 0.8"
| "typeRisk ApiKey = 0.8"
| "typeRisk JWT = 0.8"
| "typeRisk Email = 0.6"
| "typeRisk Phone = 0.6"
| "typeRisk IpAddress = 0.4"
| "typeRisk Custom = 0.5"

definition calculateRiskScore :: "PIIDetectionResult list \<Rightarrow> LogLevel \<Rightarrow> real" where
  "calculateRiskScore detections logLevel =
     (if length detections = 0 then 0
      else
        let riskScore = foldl (\<lambda>riskScore detection.
                max riskScore (typeRisk (ptype detection) * confidence detection)) 0 detections;
            logLevelMultiplier =
              (if logLevel = Level_error then 1.2 else if logLevel = Level_warn then 1.1 else 1.0);
            riskScore = riskScore * logLevelMultiplier;
            riskScore =
              (if length detections > 1
               then min 1.0 (riskScore * (1 + (real (length detections) - 1) * 0.1))
               else riskScore)
        in min 1.0 riskScore)"

text \<open>
  \<open>classifyData\<close>. The timestamp of the classification is the clock's value, an input.
\<close>

definition maxConfidence :: "PIIDetectionResult list \<Rightarrow> real" where
  "maxConfidence detections =
     (if length detections > 0 then foldl max (confidence (hd detections)) (map confidence (tl detections))
      else 0)"

definition sensitivityOf :: "PIIDetectionResult list \<Rightarrow> real \<Rightarrow> SensitivityLevel" where
  "sensitivityOf detections riskScore =
     (if riskScore \<ge> 0.8 \<or> list_ex (\<lambda>d. ptype d \<in> set [CreditCard, SSN, Password]) detections
      then Restricted
      else if riskScore \<ge> 0.6 \<or> list_ex (\<lambda>d. ptype d \<in> set [ApiKey, JWT]) detections
      then Confidential
      else if riskScore \<ge> 0.3 \<or> length detections > 0
      then Internal
      else Public)"

definition classifyData :: "int \<Rightarrow> PIIDetectionResult list \<Rightarrow> real \<Rightarrow> DataClassification" where
  "classifyData now detections riskScore =
     \<lparr> sensitivityLevel = sensitivityOf detections riskScore,
       detectedTypes = map ptype detections,
       classConfidence = maxConfidence detections,
       classTimestamp = now,
       sanitized = False \<rparr>"

subsection \<open>The risk score and the classification as the specification words them\<close>

definition clamp01 :: "real \<Rightarrow> real" where
  "clamp01 x = max 0 (min 1 x)"

definition severity_base :: "PIIType \<Rightarrow> real" where
  "severity_base t =
     (if t = CreditCard \<or> t = SSN then 0.9
      else if t = Password \<or> t = ApiKey \<or> t = JWT then 0.8
      else if t = Email \<or> t = Phone then 0.6
      else if t = IpAddress then 0.4
      else 0.5)"

definition level_factor :: "LogLevel \<Rightarrow> real" where
  "level_factor l = (if l = Level_error then 1.2 else if l = Level_warn then 1.1 else 1.0)"

definition spec_riskScore :: "PIIDetectionResult list \<Rightarrow> LogLevel \<Rightarrow> real" where
  "spec_riskScore ds l =
     (if ds = [] then 0
      else
        let baseline = clamp01 (Max (set (map (\<lambda>d. severity_base (ptype d) * confidence d) ds)));
            levelled = clamp01 (baseline * level_factor l)
        in if length ds > 1 then clamp01 (levelled * (1 + 0.1 * (real (length ds) - 1)))
           else levelled)"

definition spec_sensitivity :: "PIIDetectionResult list \<Rightarrow> real \<Rightarrow> SensitivityLevel" where
  "spec_sensitivity ds risk =
     (if risk \<ge> 0.8 \<or> (\<exists>d \<in> set ds. ptype d = CreditCard \<or> ptype d = SSN \<or> ptype d = Password)
      then Restricted
      else if risk \<ge> 0.6 \<or> (\<exists>d \<in> set ds. ptype d = ApiKey \<or> ptype d = JWT)
      then Confidential
      else if risk \<ge> 0.3 \<or> ds \<noteq> []
      then Internal
      else Public)"

section \<open>The JavaScript runtime\<close>

text \<open>
  What the code reads from its host is an input of the model: the clock
  (\<open>new Date()\<close>, \<open>Date.now()\<close>), the random strings the id generators draw
  (\<open>Math.random().toString(36).substring(2)\<close>, the \<open>k\<close>-th draw of a call), calendar
  arithmetic on dates (\<open>setDate(getDate() + n)\<close>) and the durations measured with
  \<open>performance.now()\<close>. Dates are milliseconds since the epoch.
\<close>

record runtime =
  dateNow :: int
  randomId :: "nat \<Rightarrow> string"
  addDays :: "int \<Rightarrow> int \<Rightarrow> int"
  detectorScanTime :: real
  engineScanTime :: real

fun decimal :: "nat \<Rightarrow> string" where
  "decimal n = (if n < 10 then [char_of (48 + n)] else decimal (n div 10) @ [char_of (48 + n mod 10)])"

declare decimal.simps [simp del]

definition numberToString :: "int \<Rightarrow> string" where
  "numberToString i = (if i < 0 then ''-'' @ decimal (nat (- i)) else decimal (nat i))"

fun hexadecimal :: "nat \<Rightarrow> string" where
  "hexadecimal n =
     (if n < 16 then [''0123456789abcdef'' ! n]
      else hexadecimal (n div 16) @ [''0123456789abcdef'' ! (n mod 16)])"

declare hexadecimal.simps [simp del]

text \<open>
  The string hash used by \<open>hashUserId\<close> and \<open>hashValue\<close>:
  \<open>hash = ((hash << 5) - hash) + char; hash = hash & hash\<close>, a 32-bit signed integer
  after every step.
\<close>

definition hashStep :: "32 word \<Rightarrow> char \<Rightarrow> 32 word" where
  "hashStep hash c = (push_bit 5 hash - hash) + of_nat (of_char c)"

definition hashCode :: "string \<Rightarrow> int" where
  "hashCode s = sint (foldl hashStep 0 s)"

text \<open>
  \<open>Array.prototype.sort\<close> with a comparator: the sort is stable, so with a consistent
  comparator its result is that of the stable insertion sort. \<open>cmp a b \<le> 0\<close> keeps \<open>a\<close>
  before \<open>b\<close>.
\<close>

fun insert_by :: "('a \<Rightarrow> 'a \<Rightarrow> real) \<Rightarrow> 'a \<Rightarrow> 'a list \<Rightarrow> 'a list" where
  "insert_by cmp x [] = [x]"
| "insert_by cmp x (y # ys) = (if cmp x y \<le> 0 then x # y # ys else y # insert_by cmp x ys)"

definition array_sort :: "('a \<Rightarrow> 'a \<Rightarrow> real) \<Rightarrow> 'a list \<Rightarrow> 'a list" where
  "array_sort cmp xs = foldr (insert_by cmp) xs []"

section \<open>ConsentManager\<close>

datatype ConsentStatus = Granted | Denied | Pending | Withdrawn

datatype ProcessingPurpose =
  Logging | Analytics | Debugging | Performance_monitoring | Error_reporting | Export_functionality

datatype AuditEventType =
  Pii_detected | Data_sanitized | Consent_given | Consent_withdrawn | Data_exported | Data_deleted

datatype Jurisdiction = GDPR | CCPA | BOTH

datatype RequestType = Access | Rectification | Erasure | Portability | Restriction | Objection

datatype RequestStatus = Request_pending | Request_processing | Request_completed | Request_rejected

text \<open>The values stored in an audit entry's free-form \<open>details\<close>.\<close>

datatype detail =
  DString string | DNumber int | DBool bool | DStatus ConsentStatus | DPurpose ProcessingPurpose
  | DRequestType RequestType | DUndefined

text \<open>
  \<open>purposes\<close> is a JavaScript object: its keys keep the order in which they were first
  set, and setting a key that exists keeps its place (\<^const>\<open>AList.update\<close>).
\<close>

record ConsentPreferences =
  consentId :: string
  userId :: string
  purposes :: "(ProcessingPurpose \<times> ConsentStatus) list"
  piiProcessing :: ConsentStatus
  dataRetentionHours :: int
  consentTimestamp :: int
  lastUpdated :: int
  ipAddress :: string
  userAgent :: string

record AuditLogEntry =
  entryId :: string
  timestamp :: int
  eventType :: AuditEventType
  entryUserId :: "string option"
  details :: "(string \<times> detail) list"
  entryIpAddress :: string
  entryUserAgent :: string
  gdpr :: bool
  ccpa :: bool
  hipaa :: bool

record DataSubjectRequest =
  requestId :: string
  requestUserId :: string
  requestType :: RequestType
  requestStatus :: RequestStatus
  requestDate :: int
  description :: string

record ConsentVerificationResult =
  isValid :: bool
  hasConsent :: bool
  consentStatus :: ConsentStatus
  expiryDate :: "int option"
  verifiedLastUpdated :: int
  requiresRenewal :: bool

text \<open>
  The manager's state. The two \<open>Map\<close>s are association lists in insertion order. Of the
  privacy notice only the jurisdiction is read. The event listeners only print to the
  console, and an exception of a listener is caught in \<open>emitConsentChange\<close>, so they
  are left out.
\<close>

record ConsentManager =
  preferences :: "(string \<times> ConsentPreferences) list"
  auditLog :: "AuditLogEntry list"
  dataSubjectRequests :: "(string \<times> DataSubjectRequest) list"
  jurisdiction :: Jurisdiction
  consentExpiryDays :: int

definition newConsentManager :: "Jurisdiction \<Rightarrow> int \<Rightarrow> ConsentManager" where
  "newConsentManager j days =
     \<lparr> preferences = [], auditLog = [], dataSubjectRequests = [],
       jurisdiction = j, consentExpiryDays = days \<rparr>"

definition generateConsentId :: "runtime \<Rightarrow> nat \<Rightarrow> string" where
  "generateConsentId rt k = ''consent_'' @ numberToString (dateNow rt) @ ''_'' @ randomId rt k"

definition generateAuditId :: "runtime \<Rightarrow> nat \<Rightarrow> string" where
  "generateAuditId rt k = ''audit_'' @ numberToString (dateNow rt) @ ''_'' @ randomId rt k"

definition generateRequestId :: "runtime \<Rightarrow> nat \<Rightarrow> string" where
  "generateRequestId rt k = ''request_'' @ numberToString (dateNow rt) @ ''_'' @ randomId rt k"

definition hashUserId :: "string \<Rightarrow> string" where
  "hashUserId uid = ''user_'' @ hexadecimal (nat \<bar>hashCode uid\<bar>)"

text \<open>\<open>addAuditLogEntry\<close>: push, then \<open>splice(0, length - 10000)\<close> when over the cap.\<close>

definition addAuditLogEntry :: "ConsentManager \<Rightarrow> AuditLogEntry \<Rightarrow> ConsentManager" where
  "addAuditLogEntry cm entry =
     (let log = auditLog cm @ [entry]
      in cm\<lparr>auditLog := (if length log > 10000 then drop (length log - 10000) log else log)\<rparr>)"

definition calculateGlobalPIIConsent :: "(ProcessingPurpose \<times> ConsentStatus) list \<Rightarrow> ConsentStatus" where
  "calculateGlobalPIIConsent ps =
     (let values = map snd ps
      in if list_ex (\<lambda>status. status = Withdrawn) values then Withdrawn
         else if list_ex (\<lambda>status. status = Denied) values then Denied
         else if list_all (\<lambda>status. status = Granted) values then Granted
         else Pending)"

definition jurisdictionGdpr :: "ConsentManager \<Rightarrow> bool" where
  "jurisdictionGdpr cm = (jurisdiction cm = GDPR \<or> jurisdiction cm = BOTH)"

definition jurisdictionCcpa :: "ConsentManager \<Rightarrow> bool" where
  "jurisdictionCcpa cm = (jurisdiction cm = CCPA \<or> jurisdiction cm = BOTH)"

text \<open>
  The loop of \<open>recordConsent\<close> over the purposes of the call. The preferences object and
  the manager (its audit log) are both updated by each round; \<open>k\<close> counts the random
  draws.
\<close>

definition consentGivenEntry ::
  "runtime \<Rightarrow> ConsentManager \<Rightarrow> nat \<Rightarrow> string \<Rightarrow> ProcessingPurpose \<Rightarrow> ConsentStatus \<Rightarrow>
   ConsentStatus \<Rightarrow> string \<Rightarrow> string \<Rightarrow> string \<Rightarrow> AuditLogEntry" where
  "consentGivenEntry rt cm k uid purpose status oldStatus ip ua cid =
     \<lparr> entryId = generateAuditId rt k, timestamp = dateNow rt, eventType = Consent_given,
       entryUserId = Some uid,
       details = [(''purpose'', DPurpose purpose), (''consentStatus'', DStatus status),
                  (''oldStatus'', DStatus oldStatus), (''ipAddress'', DString ip),
                  (''userAgent'', DString ua), (''consentId'', DString cid)],
       entryIpAddress = ip, entryUserAgent = ua,
       gdpr = jurisdictionGdpr cm, ccpa = jurisdictionCcpa cm, hipaa = False \<rparr>"

fun recordConsent_purposes ::
  "runtime \<Rightarrow> string \<Rightarrow> ConsentStatus \<Rightarrow> string \<Rightarrow> string \<Rightarrow> nat \<Rightarrow> ProcessingPurpose list \<Rightarrow>
   ConsentPreferences \<times> ConsentManager \<Rightarrow> ConsentPreferences \<times> ConsentManager" where
  "recordConsent_purposes rt uid status ip ua k [] (prefs, cm) = (prefs, cm)"
| "recordConsent_purposes rt uid status ip ua k (purpose # rest) (prefs, cm) =
     (let oldStatus = (case map_of (purposes prefs) purpose of Some s \<Rightarrow> s | None \<Rightarrow> Pending);
          prefs' = prefs\<lparr>purposes := AList.update purpose status (purposes prefs)\<rparr>;
          cm' = addAuditLogEntry cm
                  (consentGivenEntry rt cm k uid purpose status oldStatus ip ua (consentId prefs'))
      in recordConsent_purposes rt uid status ip ua (Suc k) rest (prefs', cm'))"

definition recordConsent ::
  "runtime \<Rightarrow> ConsentManager \<Rightarrow> string \<Rightarrow> ProcessingPurpose list \<Rightarrow> bool \<Rightarrow> string \<Rightarrow> string \<Rightarrow>
   ConsentPreferences \<times> ConsentManager" where
  "recordConsent rt cm uid ps consentGiven ip ua =
     (let timestamp = dateNow rt;
          status = (if consentGiven then Granted else Denied);
          prefs = (case map_of (preferences cm) uid of
                     Some p \<Rightarrow> p
                   | None \<Rightarrow>
                       \<lparr> consentId = generateConsentId rt 0, userId = uid, purposes = [],
                         piiProcessing = Pending,
                         dataRetentionHours = 24 * consentExpiryDays cm,
                         consentTimestamp = timestamp, lastUpdated = timestamp,
                         ipAddress = ip, userAgent = ua \<rparr>);
          (prefs, cm) = recordConsent_purposes rt uid status ip ua 1 ps (prefs, cm);
          prefs = prefs\<lparr> piiProcessing := calculateGlobalPIIConsent (purposes prefs),
                         lastUpdated := timestamp, ipAddress := ip, userAgent := ua \<rparr>
      in (prefs, cm\<lparr>preferences := AList.update uid prefs (preferences cm)\<rparr>))"

definition consentWithdrawnEntry ::
  "runtime \<Rightarrow> ConsentManager \<Rightarrow> nat \<Rightarrow> string \<Rightarrow> ProcessingPurpose \<Rightarrow> ConsentStatus option \<Rightarrow>
   string \<Rightarrow> string \<Rightarrow> string \<Rightarrow> AuditLogEntry" where
  "consentWithdrawnEntry rt cm k uid purpose oldStatus ip ua cid =
     \<lparr> entryId = generateAuditId rt k, timestamp = dateNow rt, eventType = Consent_withdrawn,
       entryUserId = Some uid,
       details = [(''purpose'', DPurpose purpose),
                  (''oldStatus'', (case oldStatus of Some s \<Rightarrow> DStatus s | None \<Rightarrow> DUndefined)),
                  (''ipAddress'', DString ip), (''userAgent'', DString ua),
                  (''consentId'', DString cid)],
       entryIpAddress = ip, entryUserAgent = ua,
       gdpr = jurisdictionGdpr cm, ccpa = jurisdictionCcpa cm, hipaa = False \<rparr>"

fun withdrawConsent_purposes ::
  "runtime \<Rightarrow> string \<Rightarrow> string \<Rightarrow> string \<Rightarrow> nat \<Rightarrow> ProcessingPurpose list \<Rightarrow>
   ConsentPreferences \<times> ConsentManager \<Rightarrow> ConsentPreferences \<times> ConsentManager" where
  "withdrawConsent_purposes rt uid ip ua k [] (prefs, cm) = (prefs, cm)"
| "withdrawConsent_purposes rt uid ip ua k (purpose # rest) (prefs, cm) =
     (let oldStatus = map_of (purposes prefs) purpose;
          prefs' = prefs\<lparr>purposes := AList.update purpose Withdrawn (purposes prefs)\<rparr>;
          cm' = addAuditLogEntry cm
                  (consentWithdrawnEntry rt cm k uid purpose oldStatus ip ua (consentId prefs'))
      in withdrawConsent_purposes rt uid ip ua (Suc k) rest (prefs', cm'))"

definition withdrawConsent ::
  "runtime \<Rightarrow> ConsentManager \<Rightarrow> string \<Rightarrow> ProcessingPurpose list \<Rightarrow> string \<Rightarrow> string \<Rightarrow>
   ConsentPreferences option \<times> ConsentManager" where
  "withdrawConsent rt cm uid ps ip ua =
     (case map_of (preferences cm) uid of
        None \<Rightarrow> (None, cm)
      | Some prefs \<Rightarrow>
          (let timestamp = dateNow rt;
               (prefs, cm) = withdrawConsent_purposes rt uid ip ua 0 ps (prefs, cm);
               prefs = prefs\<lparr> piiProcessing := calculateGlobalPIIConsent (purposes prefs),
                              lastUpdated := timestamp \<rparr>
           in (Some prefs, cm\<lparr>preferences := AList.update uid prefs (preferences cm)\<rparr>)))"

definition verifyConsent ::
  "runtime \<Rightarrow> ConsentManager \<Rightarrow> string \<Rightarrow> ProcessingPurpose \<Rightarrow> ConsentVerificationResult" where
  "verifyConsent rt cm uid purpose =
     (case map_of (preferences cm) uid of
        None \<Rightarrow>
          \<lparr> isValid = False, hasConsent = False, consentStatus = Pending, expiryDate = None,
            verifiedLastUpdated = 0, requiresRenewal = True \<rparr>
      | Some prefs \<Rightarrow>
          (let status = (case map_of (purposes prefs) purpose of Some s \<Rightarrow> s | None \<Rightarrow> Pending);
               consented = (status = Granted);
               expiry = addDays rt (consentTimestamp prefs) (consentExpiryDays cm);
               isExpired = (dateNow rt > expiry);
               renewal = (isExpired \<and> consented)
           in \<lparr> isValid = (consented \<and> \<not> isExpired), hasConsent = consented,
                consentStatus = (if renewal then Pending else status),
                expiryDate = Some expiry, verifiedLastUpdated = lastUpdated prefs,
                requiresRenewal = renewal \<rparr>))"

definition updateDataRetention ::
  "runtime \<Rightarrow> ConsentManager \<Rightarrow> string \<Rightarrow> int \<Rightarrow> ConsentPreferences option \<times> ConsentManager" where
  "updateDataRetention rt cm uid retentionHours =
     (case map_of (preferences cm) uid of
        None \<Rightarrow> (None, cm)
      | Some prefs \<Rightarrow>
          (let oldRetention = dataRetentionHours prefs;
               prefs = prefs\<lparr> dataRetentionHours := min retentionHours (24 * consentExpiryDays cm),
                              lastUpdated := dateNow rt \<rparr>;
               cm = addAuditLogEntry cm
                      \<lparr> entryId = generateAuditId rt 0, timestamp = dateNow rt,
                        eventType = Consent_given, entryUserId = Some uid,
                        details = [(''retentionChanged'', DBool True),
                                   (''oldRetentionHours'', DNumber oldRetention),
                                   (''newRetentionHours'', DNumber (dataRetentionHours prefs)),
                                   (''consentId'', DString (consentId prefs))],
                        entryIpAddress = ipAddress prefs, entryUserAgent = userAgent prefs,
                        gdpr = jurisdictionGdpr cm, ccpa = jurisdictionCcpa cm, hipaa = False \<rparr>
           in (Some prefs, cm\<lparr>preferences := AList.update uid prefs (preferences cm)\<rparr>)))"

text \<open>\<open>x || 'unknown'\<close>: the empty string is falsy as well.\<close>

definition orUnknown :: "string option \<Rightarrow> string" where
  "orUnknown s = (case s of None \<Rightarrow> ''unknown'' | Some v \<Rightarrow> if v = [] then ''unknown'' else v)"

definition submitDataSubjectRequest ::
  "runtime \<Rightarrow> ConsentManager \<Rightarrow> string \<Rightarrow> RequestType \<Rightarrow> string \<Rightarrow> DataSubjectRequest \<times> ConsentManager" where
  "submitDataSubjectRequest rt cm uid rtype descr =
     (let request = \<lparr> requestId = generateRequestId rt 0, requestUserId = uid, requestType = rtype,
                       requestStatus = Request_pending, requestDate = dateNow rt,
                       description = descr \<rparr>;
          cm = cm\<lparr>dataSubjectRequests := AList.update (requestId request) request (dataSubjectRequests cm)\<rparr>;
          cm = addAuditLogEntry cm
                 \<lparr> entryId = generateAuditId rt 1, timestamp = dateNow rt,
                   eventType = Data_exported, entryUserId = Some uid,
                   details = [(''requestType'', DRequestType rtype),
                              (''requestId'', DString (requestId request)),
                              (''description'', DString descr)],
                   entryIpAddress = orUnknown (map_option ipAddress (map_of (preferences cm) uid)),
                   entryUserAgent = orUnknown (map_option userAgent (map_of (preferences cm) uid)),
                   gdpr = True, ccpa = True, hipaa = False \<rparr>
      in (request, cm))"

definition getDataSubjectRequests :: "ConsentManager \<Rightarrow> string \<Rightarrow> DataSubjectRequest list" where
  "getDataSubjectRequests cm uid =
     array_sort (\<lambda>a b. real_of_int (requestDate b - requestDate a))
       (filter (\<lambda>request. requestUserId request = uid) (map snd (dataSubjectRequests cm)))"

fun anonymizeRequests ::
  "DataSubjectRequest list \<Rightarrow> (string \<times> DataSubjectRequest) list \<Rightarrow> (string \<times> DataSubjectRequest) list" where
  "anonymizeRequests [] m = m"
| "anonymizeRequests (request # rest) m =
     anonymizeRequests rest
       (AList.update (requestId request) (request\<lparr>requestUserId := ''[DELETED]''\<rparr>) m)"

definition processDataDeletion :: "runtime \<Rightarrow> ConsentManager \<Rightarrow> string \<Rightarrow> bool \<times> ConsentManager" where
  "processDataDeletion rt cm uid =
     (let cm = cm\<lparr>preferences := AList.delete uid (preferences cm)\<rparr>;
          userRequests = getDataSubjectRequests cm uid;
          cm = cm\<lparr>dataSubjectRequests := anonymizeRequests userRequests (dataSubjectRequests cm)\<rparr>;
          cm = addAuditLogEntry cm
                 \<lparr> entryId = generateAuditId rt 0, timestamp = dateNow rt,
                   eventType = Data_deleted, entryUserId = Some ''[DELETED]'',
                   details = [(''deletionReason'', DString ''data_subject_request''),
                              (''originalUserId'', DString (hashUserId uid)),
                              (''requestCount'', DNumber (int (length userRequests)))],
                   entryIpAddress = ''unknown'', entryUserAgent = ''system'',
                   gdpr = True, ccpa = True, hipaa = False \<rparr>
      in (True, cm))"

text \<open>The calls that append to the audit log, and a manager's life as a sequence of them.\<close>

datatype ConsentCall =
  RecordConsent string "ProcessingPurpose list" bool string string
  | WithdrawConsent string "ProcessingPurpose list" string string
  | UpdateDataRetention string int
  | SubmitDataSubjectRequest string RequestType string
  | ProcessDataDeletion string

fun call :: "runtime \<Rightarrow> ConsentManager \<Rightarrow> ConsentCall \<Rightarrow> ConsentManager" where
  "call rt cm (RecordConsent uid ps given ip ua) = snd (recordConsent rt cm uid ps given ip ua)"
| "call rt cm (WithdrawConsent uid ps ip ua) = snd (withdrawConsent rt cm uid ps ip ua)"
| "call rt cm (UpdateDataRetention uid hours) = snd (updateDataRetention rt cm uid hours)"
| "call rt cm (SubmitDataSubjectRequest uid rtype descr) = snd (submitDataSubjectRequest rt cm uid rtype descr)"
| "call rt cm (ProcessDataDeletion uid) = snd (processDataDeletion rt cm uid)"

fun calls :: "ConsentManager \<Rightarrow> (runtime \<times> ConsentCall) list \<Rightarrow> ConsentManager" where
  "calls cm [] = cm"
| "calls cm ((rt, c) # rest) = calls (call rt cm c) rest"

subsection \<open>The global status as the specification words it\<close>

definition spec_globalStatus :: "ConsentStatus list \<Rightarrow> ConsentStatus" where
  "spec_globalStatus statuses =
     (if Withdrawn \<in> set statuses then Withdrawn
      else if Denied \<in> set statuses then Denied
      else if (\<forall>s \<in> set statuses. s = Granted) then Granted
      else Pending)"

definition newest :: "nat \<Rightarrow> 'a list \<Rightarrow> 'a list" where
  "newest n xs = drop (length xs - n) xs"

definition capped :: "ConsentManager \<Rightarrow> bool" where
  "capped cm = (length (auditLog cm) \<le> 10000)"

definition consentGivenFor :: "string \<Rightarrow> ConsentStatus \<Rightarrow> ProcessingPurpose \<Rightarrow> AuditLogEntry \<Rightarrow> bool" where
  "consentGivenFor uid status purpose e =
     (eventType e = Consent_given \<and> entryUserId e = Some uid
      \<and> map_of (details e) ''purpose'' = Some (DPurpose purpose)
      \<and> map_of (details e) ''consentStatus'' = Some (DStatus status))"

definition consentWithdrawnFor :: "string \<Rightarrow> ProcessingPurpose \<Rightarrow> AuditLogEntry \<Rightarrow> bool" where
  "consentWithdrawnFor uid purpose e =
     (eventType e = Consent_withdrawn \<and> entryUserId e = Some uid
      \<and> map_of (details e) ''purpose'' = Some (DPurpose purpose))"

definition purposesOf :: "ConsentManager \<Rightarrow> string \<Rightarrow> (ProcessingPurpose \<times> ConsentStatus) list" where
  "purposesOf cm uid = (case map_of (preferences cm) uid of Some p \<Rightarrow> purposes p | None \<Rightarrow> [])"

section \<open>PIIDetector\<close>

text \<open>
  An exception that reaches a \<open>catch\<close>: an \<open>Error\<close> object with its message, the
  \<open>RangeError\<close> of \<open>String.prototype.repeat\<close> for a negative count, or a thrown value that
  is no \<open>Error\<close>.
\<close>

datatype exn = ErrorObject string | RepeatRangeError int | NonError

text \<open>
  A pattern. Its regular expression is the host's: \<open>regexExec p text lastIndex\<close> is
  what \<open>pattern.exec(text)\<close> returns when the expression's \<open>lastIndex\<close> is \<open>lastIndex\<close>: no
  match (the host then resets \<open>lastIndex\<close> to 0), or the index and the text of the match
  (the host then sets \<open>lastIndex\<close> to the end of the match). A validator is a callback; it
  may throw.
\<close>

record PIIPattern =
  pname :: string
  patternType :: PIIType
  regexExec :: "string \<Rightarrow> nat \<Rightarrow> (nat \<times> string) option"
  validator :: "(string \<Rightarrow> exn + bool) option"
  baseConfidence :: real
  requiresContext :: bool
  patternDescription :: string

record PIIDetector =
  patterns :: "(PIIType \<times> PIIPattern list) list"
  customPatterns :: "PIIPattern list"
  metricTotalScans :: nat
  metricTotalScanTimeMs :: real
  metricAverageScanTimeMs :: real
  metricLastScanTimeMs :: real

subsection \<open>Strings\<close>

text \<open>\<open>s.substring(a, b)\<close>: both ends are clamped to the length and swapped when out of order.\<close>

definition substring :: "string \<Rightarrow> nat \<Rightarrow> nat \<Rightarrow> string" where
  "substring s a b =
     (let a' = min a (length s); b' = min b (length s)
      in take (max a' b' - min a' b') (drop (min a' b') s))"

fun str_includes :: "string \<Rightarrow> string \<Rightarrow> bool" where
  "str_includes [] sub = (sub = [])"
| "str_includes (c # cs) sub = (take (length sub) (c # cs) = sub \<or> str_includes cs sub)"

text \<open>
  \<open>toLowerCase\<close> on code units below 256: the ASCII capitals and the Latin-1 capitals
  (\<open>U+00C0\<close> to \<open>U+00DE\<close> without the multiplication sign) move up by 32.
\<close>

definition toLowerChar :: "char \<Rightarrow> char" where
  "toLowerChar c =
     (let n = (of_char c :: nat)
      in if (65 \<le> n \<and> n \<le> 90) \<or> (192 \<le> n \<and> n \<le> 222 \<and> n \<noteq> 215) then char_of (n + 32) else c)"

definition toLowerCase :: "string \<Rightarrow> string" where
  "toLowerCase s = map toLowerChar s"

definition isDigit :: "char \<Rightarrow> bool" where
  "isDigit c = (48 \<le> (of_char c :: nat) \<and> (of_char c :: nat) \<le> 57)"

text \<open>\<open>\s\<close> on code units below 256: tab, line feed, vertical tab, form feed, carriage
  return, space and the no-break space.\<close>

definition isWhitespace :: "char \<Rightarrow> bool" where
  "isWhitespace c = ((of_char c :: nat) \<in> set [9, 10, 11, 12, 13, 32, 160])"

text \<open>\<open>value.replace(/\D/g, '')\<close>.\<close>

definition digitsOf :: "string \<Rightarrow> string" where
  "digitsOf s = filter isDigit s"

subsection \<open>Context and type-specific validation\<close>

definition validateContext :: "string \<Rightarrow> nat \<Rightarrow> string \<Rightarrow> PIIType \<Rightarrow> real" where
  "validateContext text matchIndex matchValue piiType =
     (let contextRadius = 20;
          contextStart = matchIndex - contextRadius;
          contextEnd = min (length text) (matchIndex + length matchValue + contextRadius);
          context = toLowerCase (substring text contextStart contextEnd)
      in case piiType of
           Email \<Rightarrow>
             if str_includes context ''email'' \<or> str_includes context ''mail'' \<or> str_includes context ''@''
             then 1.0
             else if str_includes context ''user'' \<or> str_includes context ''login''
                     \<or> str_includes context ''account''
             then 0.9
             else 0.8
         | CreditCard \<Rightarrow>
             if str_includes context ''card'' \<or> str_includes context ''payment''
                \<or> str_includes context ''visa'' \<or> str_includes context ''mastercard''
                \<or> str_includes context ''amex''
             then 1.0
             else if str_includes context ''number'' \<or> str_includes context ''cc''
                     \<or> str_includes context ''credit''
             then 0.9
             else 0.7
         | SSN \<Rightarrow>
             if str_includes context ''ssn'' \<or> str_includes context ''social''
                \<or> str_includes context ''security''
             then 1.0
             else if str_includes context ''tax'' \<or> str_includes context ''id''
                     \<or> str_includes context ''number''
             then 0.8
             else 0.6
         | Phone \<Rightarrow>
             if str_includes context ''phone'' \<or> str_includes context ''tel''
                \<or> str_includes context ''call'' \<or> str_includes context ''mobile''
                \<or> str_includes context ''contact''
             then 1.0
             else 0.8
         | ApiKey \<Rightarrow>
             if str_includes context ''key'' \<or> str_includes context ''token''
                \<or> str_includes context ''auth'' \<or> str_includes context ''api''
                \<or> str_includes context ''bearer''
             then 1.0
             else 0.8
         | JWT \<Rightarrow>
             if str_includes context ''key'' \<or> str_includes context ''token''
                \<or> str_includes context ''auth'' \<or> str_includes context ''api''
                \<or> str_includes context ''bearer''
             then 1.0
             else 0.8
         | _ \<Rightarrow> 0.8)"

text \<open>
  The Luhn loop runs over the digits from the last to the first; \<open>alternate\<close> starts false
  and flips after every digit.
\<close>

fun luhnLoop :: "nat list \<Rightarrow> bool \<Rightarrow> nat \<Rightarrow> nat" where
  "luhnLoop [] alternate acc = acc"
| "luhnLoop (d # ds) alternate acc =
     (let n = (if alternate then (if d * 2 > 9 then (d * 2) mod 10 + 1 else d * 2) else d)
      in luhnLoop ds (\<not> alternate) (acc + n))"

definition digitValue :: "char \<Rightarrow> nat" where
  "digitValue c = of_char c - 48"

definition validateCreditCard :: "string \<Rightarrow> bool" where
  "validateCreditCard cardNumber =
     (let digits = digitsOf cardNumber
      in if length digits < 13 \<or> length digits > 19 then False
         else luhnLoop (rev (map digitValue digits)) False 0 mod 10 = 0)"

text \<open>
  \<open>/^[^\s@]+@[^\s@]+\.[^\s@]+$/\<close>: no white space; exactly one \<open>@\<close>, with something before
  it; and after it a dot that is neither the first nor the last character.
\<close>

definition emailRegexTest :: "string \<Rightarrow> bool" where
  "emailRegexTest email =
     (let local = takeWhile (\<lambda>c. c \<noteq> CHR ''@'') email;
          rest = dropWhile (\<lambda>c. c \<noteq> CHR ''@'') email
      in \<not> list_ex isWhitespace email \<and> local \<noteq> [] \<and> rest \<noteq> []
         \<and> CHR ''@'' \<notin> set (tl rest)
         \<and> list_ex (\<lambda>i. tl rest ! i = CHR ''.'') [1..<length (tl rest) - 1])"

definition validateEmail :: "string \<Rightarrow> bool" where
  "validateEmail email = (emailRegexTest email \<and> \<not> str_includes email ''..'')"

definition validateSSN :: "string \<Rightarrow> bool" where
  "validateSSN ssn =
     (let digits = digitsOf ssn;
          invalidPatterns = [''000'', ''666'', ''900'', ''999'', ''0000'', ''00'']
      in if length digits \<noteq> 9 then False
         else
           let area = substring digits 0 3;
               group = substring digits 3 5;
               serial = substring digits 5 9
           in area \<notin> set invalidPatterns \<and> group \<notin> set invalidPatterns
              \<and> serial \<notin> set invalidPatterns)"

definition validatePhone :: "string \<Rightarrow> bool" where
  "validatePhone phone = (let digits = digitsOf phone in length digits \<ge> 10 \<and> length digits \<le> 15)"

definition applyTypeSpecificValidation :: "string \<Rightarrow> PIIType \<Rightarrow> real \<Rightarrow> real" where
  "applyTypeSpecificValidation v piiType currentConfidence =
     (case piiType of
        CreditCard \<Rightarrow> if validateCreditCard v then currentConfidence else currentConfidence * 0.5
      | Email \<Rightarrow> if validateEmail v then currentConfidence else currentConfidence * 0.3
      | SSN \<Rightarrow> if validateSSN v then currentConfidence else currentConfidence * 0.2
      | Phone \<Rightarrow> if validatePhone v then currentConfidence else currentConfidence * 0.6
      | _ \<Rightarrow> currentConfidence)"

subsection \<open>Matching one pattern\<close>

text \<open>
  The body of the \<open>while\<close> loop of \<open>findPatternMatches\<close> for a match that the validator,
  if there is one, has accepted.
\<close>

definition detectionOf :: "PIIPattern \<Rightarrow> string \<Rightarrow> nat \<Rightarrow> string \<Rightarrow> PIIDetectionResult" where
  "detectionOf pattern text index matchedValue =
     (let c = baseConfidence pattern;
          c = (if validator pattern \<noteq> None then min 1.0 (c + 0.1) else c);
          c = (if requiresContext pattern
               then c * validateContext text index matchedValue (patternType pattern)
               else c);
          c = applyTypeSpecificValidation matchedValue (patternType pattern) c
      in \<lparr> ptype = patternType pattern, matched = matchedValue, startIndex = int index,
           endIndex = int index + int (length matchedValue), confidence = c,
           patternName = pname pattern, highConfidence = (c \<ge> 0.8) \<rparr>)"

definition runValidator :: "PIIPattern \<Rightarrow> string \<Rightarrow> exn + bool" where
  "runValidator pattern matchedValue =
     (case validator pattern of None \<Rightarrow> Inr True | Some v \<Rightarrow> v matchedValue)"

text \<open>
  The loop itself. It ends when \<open>exec\<close> finds no further match; a match that the
  validator rejects is skipped by \<open>continue\<close>, before the step past a zero-width match.
  The loop need not end, hence the option: \<open>None\<close> is a scan that never returns.
\<close>

partial_function (option) findPatternMatches_loop ::
  "PIIPattern \<Rightarrow> string \<Rightarrow> nat \<Rightarrow> PIIDetectionResult list \<Rightarrow> (exn + PIIDetectionResult list) option" where
  "findPatternMatches_loop pattern text lastIndex matches =
     (case regexExec pattern text lastIndex of
        None \<Rightarrow> Some (Inr matches)
      | Some (index, matchedValue) \<Rightarrow>
          (case runValidator pattern matchedValue of
             Inl e \<Rightarrow> Some (Inl e)
           | Inr accepted \<Rightarrow>
               if \<not> accepted
               then findPatternMatches_loop pattern text (index + length matchedValue) matches
               else findPatternMatches_loop pattern text
                      (if length matchedValue = 0 then index + length matchedValue + 1
                       else index + length matchedValue)
                      (matches @ [detectionOf pattern text index matchedValue])))"

definition findPatternMatches :: "PIIPattern \<Rightarrow> string \<Rightarrow> (exn + PIIDetectionResult list) option" where
  "findPatternMatches pattern text = findPatternMatches_loop pattern text 0 []"

subsection \<open>Overlap resolution\<close>

definition overlaps :: "PIIDetectionResult \<Rightarrow> PIIDetectionResult \<Rightarrow> bool" where
  "overlaps detection existing =
     (\<not> (endIndex detection \<le> startIndex existing \<or> startIndex detection \<ge> endIndex existing))"

definition byConfidenceThenStart :: "PIIDetectionResult \<Rightarrow> PIIDetectionResult \<Rightarrow> real" where
  "byConfidenceThenStart a b =
     (if confidence a \<noteq> confidence b then confidence b - confidence a
      else real_of_int (startIndex a - startIndex b))"

definition byStart :: "PIIDetectionResult \<Rightarrow> PIIDetectionResult \<Rightarrow> real" where
  "byStart a b = real_of_int (startIndex a - startIndex b)"

fun acceptLoop :: "PIIDetectionResult list \<Rightarrow> PIIDetectionResult list \<Rightarrow> PIIDetectionResult list" where
  "acceptLoop filtered [] = filtered"
| "acceptLoop filtered (detection # rest) =
     (let hasOverlap = list_ex (\<lambda>existing. overlaps detection existing) filtered
      in if \<not> hasOverlap then acceptLoop (filtered @ [detection]) rest
         else acceptLoop filtered rest)"

definition removeOverlappingDetections :: "PIIDetectionResult list \<Rightarrow> PIIDetectionResult list" where
  "removeOverlappingDetections detections =
     (if length detections \<le> 1 then detections
      else
        let sorted = array_sort byConfidenceThenStart detections;
            filtered = acceptLoop [] sorted
        in array_sort byStart filtered)"

subsection \<open>The scan\<close>

definition updatePerformanceMetrics :: "PIIDetector \<Rightarrow> real \<Rightarrow> PIIDetector" where
  "updatePerformanceMetrics det scanTimeMs =
     (let total = metricTotalScans det + 1;
          totalTime = metricTotalScanTimeMs det + scanTimeMs
      in det\<lparr> metricLastScanTimeMs := scanTimeMs, metricTotalScans := total,
               metricTotalScanTimeMs := totalTime,
               metricAverageScanTimeMs := totalTime / real total \<rparr>)"

text \<open>The loops of \<open>scanText\<close> over patterns: the matches of each at or above \<open>minConfidence\<close>
  are pushed; an exception or a scan that never returns ends them.\<close>

fun scanPatterns ::
  "PIIPattern list \<Rightarrow> string \<Rightarrow> real \<Rightarrow> PIIDetectionResult list \<Rightarrow> (exn + PIIDetectionResult list) option" where
  "scanPatterns [] text minConfidence detections = Some (Inr detections)"
| "scanPatterns (pattern # rest) text minConfidence detections =
     (case findPatternMatches pattern text of
        None \<Rightarrow> None
      | Some (Inl e) \<Rightarrow> Some (Inl e)
      | Some (Inr matches) \<Rightarrow>
          scanPatterns rest text minConfidence
            (detections @ filter (\<lambda>m. confidence m \<ge> minConfidence) matches))"

definition registeredPatterns :: "PIIDetector \<Rightarrow> PIIPattern list" where
  "registeredPatterns det = concat (map snd (patterns det)) @ customPatterns det"

definition collectDetections :: "PIIDetector \<Rightarrow> string \<Rightarrow> real \<Rightarrow> (exn + PIIDetectionResult list) option" where
  "collectDetections det text minConfidence =
     (case scanPatterns (concat (map snd (patterns det))) text minConfidence [] of
        None \<Rightarrow> None
      | Some (Inl e) \<Rightarrow> Some (Inl e)
      | Some (Inr detections) \<Rightarrow> scanPatterns (customPatterns det) text minConfidence detections)"

text \<open>
  \<open>scanText\<close>: the \<open>finally\<close> block updates the metrics whether the scan returned or threw.
  When the caller leaves \<open>minConfidence\<close> out it is 0.7.
\<close>

definition scanText ::
  "PIIDetector \<Rightarrow> runtime \<Rightarrow> string \<Rightarrow> real \<Rightarrow> ((exn + PIIDetectionResult list) \<times> PIIDetector) option" where
  "scanText det rt text minConfidence =
     (case collectDetections det text minConfidence of
        None \<Rightarrow> None
      | Some (Inl e) \<Rightarrow> Some (Inl e, updatePerformanceMetrics det (detectorScanTime rt))
      | Some (Inr detections) \<Rightarrow>
          Some (Inr (removeOverlappingDetections detections),
                updatePerformanceMetrics det (detectorScanTime rt)))"

subsection \<open>The confidence of a match as the specification words it\<close>












section \<open>DataSanitizer\<close>

datatype SanitizationStrategy = Mask | Hash | Remove | Partial

text \<open>
  The configuration. The mask character is one code unit, as its name and its default
  \<open>*\<close> say: a longer mask would go through the \<open>$\<close>-patterns of
  \<open>String.prototype.replace\<close>, which are not modelled.
\<close>

record SanitizationConfig =
  defaultStrategy :: SanitizationStrategy
  typeStrategies :: "PIIType \<Rightarrow> SanitizationStrategy option"
  maskCharacter :: char
  partialPreserveLength :: int
  preserveFormat :: bool
  hashSalt :: string

record SanitizationAction =
  piiType :: PIIType
  strategy :: SanitizationStrategy
  originalValueHash :: string
  sanitizedValue :: string
  positionStart :: int
  positionEnd :: int
  actionTimestamp :: int

record SanitizationResult =
  originalText :: string
  sanitizedText :: string
  sanitizedDetections :: "PIIDetectionResult list"
  actions :: "SanitizationAction list"
  wasModified :: bool

record DataSanitizer =
  config :: SanitizationConfig
  auditTrail :: "SanitizationAction list"
  hashCache :: "(string \<times> string) list"

definition defaultTypeStrategies :: "PIIType \<Rightarrow> SanitizationStrategy option" where
  "defaultTypeStrategies t =
     (case t of
        CreditCard \<Rightarrow> Some Mask | SSN \<Rightarrow> Some Mask | Email \<Rightarrow> Some Partial
      | Phone \<Rightarrow> Some Partial | ApiKey \<Rightarrow> Some Remove | JWT \<Rightarrow> Some Remove
      | Password \<Rightarrow> Some Remove | IpAddress \<Rightarrow> Some Hash | Custom \<Rightarrow> Some Mask)"

text \<open>The sanitizer of \<open>new DataSanitizer()\<close>; the salt is 32 random characters.\<close>

definition newDataSanitizer :: "string \<Rightarrow> DataSanitizer" where
  "newDataSanitizer salt =
     \<lparr> config = \<lparr> defaultStrategy = Mask, typeStrategies = defaultTypeStrategies,
                    maskCharacter = CHR ''*'', partialPreserveLength = 4, preserveFormat = True,
                    hashSalt = salt \<rparr>,
       auditTrail = [], hashCache = [] \<rparr>"

definition getStrategyForPIIType :: "DataSanitizer \<Rightarrow> PIIType \<Rightarrow> SanitizationStrategy" where
  "getStrategyForPIIType san t =
     (case typeStrategies (config san) t of Some s \<Rightarrow> s | None \<Rightarrow> defaultStrategy (config san))"

text \<open>\<open>mask.repeat(count)\<close>: a negative count is a \<open>RangeError\<close>.\<close>

definition repeat :: "char \<Rightarrow> int \<Rightarrow> exn + string" where
  "repeat c count = (if count < 0 then Inl (RepeatRangeError count) else Inr (replicate (nat count) c))"

text \<open>\<open>value.split('@')\<close>, and what a template literal prints for a part that is not there.\<close>

fun split :: "char \<Rightarrow> string \<Rightarrow> string list" where
  "split sep [] = [[]]"
| "split sep (c # cs) =
     (if c = sep then [] # split sep cs
      else (case split sep cs of [] \<Rightarrow> [[c]] | part # parts \<Rightarrow> (c # part) # parts))"

definition orUndefined :: "string option \<Rightarrow> string" where
  "orUndefined s = (case s of None \<Rightarrow> ''undefined'' | Some v \<Rightarrow> v)"

definition part :: "string list \<Rightarrow> nat \<Rightarrow> string option" where
  "part parts i = (if i < length parts then Some (parts ! i) else None)"

definition charAt :: "string \<Rightarrow> nat \<Rightarrow> string option" where
  "charAt s i = (if i < length s then Some [s ! i] else None)"

definition isAlphanumeric :: "char \<Rightarrow> bool" where
  "isAlphanumeric c =
     (let n = (of_char c :: nat)
      in (97 \<le> n \<and> n \<le> 122) \<or> (65 \<le> n \<and> n \<le> 90) \<or> (48 \<le> n \<and> n \<le> 57))"

definition maskValue :: "SanitizationConfig \<Rightarrow> string \<Rightarrow> PIIType \<Rightarrow> exn + string" where
  "maskValue cfg v t =
     (if \<not> preserveFormat cfg then repeat (maskCharacter cfg) (int (length v))
      else if t = CreditCard \<or> t = SSN \<or> t = Phone
      then Inr (map (\<lambda>c. if isDigit c then maskCharacter cfg else c) v)
      else if t = Email
      then
        (let parts = split (CHR ''@'') v;
             local = hd parts;
             domain = part parts 1
         in case (if length local > 2
                  then (case repeat (maskCharacter cfg) (int (length local) - 2) of
                          Inl e \<Rightarrow> Inl e
                        | Inr stars \<Rightarrow> Inr ([hd local] @ stars @ [last local]))
                  else repeat (maskCharacter cfg) (int (length local))) of
              Inl e \<Rightarrow> Inl e
            | Inr maskedLocal \<Rightarrow> Inr (maskedLocal @ ''@'' @ orUndefined domain))
      else Inr (map (\<lambda>c. if isAlphanumeric c then maskCharacter cfg else c) v))"

text \<open>
  \<open>value.replace(/\d/g, (match, index) => masked[digitIndex] || match)\<close>: the \<open>k\<close>-th
  digit of the value becomes the \<open>k\<close>-th character of \<open>masked\<close>, if there is one.
\<close>

fun replaceDigits :: "string \<Rightarrow> string \<Rightarrow> nat \<Rightarrow> string" where
  "replaceDigits [] masked k = []"
| "replaceDigits (c # cs) masked k =
     (if isDigit c
      then (if k < length masked then masked ! k else c) # replaceDigits cs masked (Suc k)
      else c # replaceDigits cs masked k)"

definition partialMaskValue :: "SanitizationConfig \<Rightarrow> string \<Rightarrow> PIIType \<Rightarrow> exn + string" where
  "partialMaskValue cfg v t =
     (let preserveLength = min (partialPreserveLength cfg) (int (length v) div 3)
      in if int (length v) \<le> preserveLength * 2 then maskValue cfg v t
         else if t = Email
         then
           (let parts = split (CHR ''@'') v;
                local = hd parts;
                domain = part parts 1
            in if length local \<le> 4
               then (case repeat (maskCharacter cfg) (int (length local) - 1) of
                       Inl e \<Rightarrow> Inl e
                     | Inr stars \<Rightarrow>
                         Inr (orUndefined (charAt local 0) @ stars @ ''@'' @ orUndefined domain))
               else (case repeat (maskCharacter cfg) (int (length local) - 4) of
                       Inl e \<Rightarrow> Inl e
                     | Inr stars \<Rightarrow>
                         Inr (substring local 0 2 @ stars
                              @ substring local (length local - 2) (length local)
                              @ ''@'' @ orUndefined domain)))
         else if t = CreditCard
         then
           (let digits = digitsOf v
            in if length digits \<ge> 8
               then (case repeat (maskCharacter cfg) (int (length digits) - 8) of
                       Inl e \<Rightarrow> Inl e
                     | Inr stars \<Rightarrow>
                         Inr (replaceDigits v
                                (substring digits 0 4 @ stars
                                 @ substring digits (length digits - 4) (length digits)) 0))
               else maskValue cfg v t)
         else if t = Phone
         then
           (let phoneDigits = digitsOf v
            in if length phoneDigits \<ge> 7
               then (case repeat (maskCharacter cfg) (int (length phoneDigits) - 6) of
                       Inl e \<Rightarrow> Inl e
                     | Inr stars \<Rightarrow>
                         Inr (replaceDigits v
                                (substring phoneDigits 0 3 @ stars
                                 @ substring phoneDigits (length phoneDigits - 3) (length phoneDigits)) 0))
               else maskValue cfg v t)
         else
           (case repeat (maskCharacter cfg) (int (length v) - preserveLength * 2) of
              Inl e \<Rightarrow> Inl e
            | Inr middle \<Rightarrow>
                Inr (substring v 0 (nat preserveLength) @ middle
                     @ substring v (nat (int (length v) - preserveLength)) (length v))))"

text \<open>\<open>hashValue\<close>: the cache first; otherwise the hash of the value followed by the salt,
  as eight or more hexadecimal digits, which goes into the cache.\<close>

definition padStart8 :: "string \<Rightarrow> string" where
  "padStart8 s = replicate (8 - length s) (CHR ''0'') @ s"

definition hashValue :: "DataSanitizer \<Rightarrow> string \<Rightarrow> string \<times> DataSanitizer" where
  "hashValue san v =
     (case map_of (hashCache san) v of
        Some h \<Rightarrow> (h, san)
      | None \<Rightarrow>
          (let hash = hashCode (v @ hashSalt (config san));
               hashString = ''[HASH:'' @ padStart8 (hexadecimal (nat \<bar>hash\<bar>)) @ '']''
           in (hashString, san\<lparr>hashCache := AList.update v hashString (hashCache san)\<rparr>)))"

definition applySanitizationStrategy ::
  "DataSanitizer \<Rightarrow> string \<Rightarrow> PIIType \<Rightarrow> SanitizationStrategy \<Rightarrow> (exn + string) \<times> DataSanitizer" where
  "applySanitizationStrategy san v t s =
     (case s of
        Mask \<Rightarrow> (maskValue (config san) v t, san)
      | Hash \<Rightarrow> (let (h, san') = hashValue san v in (Inr h, san'))
      | Remove \<Rightarrow> (Inr ''[REDACTED]'', san)
      | Partial \<Rightarrow> (partialMaskValue (config san) v t, san))"

text \<open>
  The loop of \<open>sanitizeText\<close> over the sorted detections. An exception leaves the loop
  with the audit trail and the cache as they are by then.
\<close>

record sanitizeState =
  runningText :: string
  runningActions :: "SanitizationAction list"
  runningDetections :: "PIIDetectionResult list"

fun sanitizeLoop ::
  "runtime \<Rightarrow> PIIDetectionResult list \<Rightarrow> sanitizeState \<Rightarrow> DataSanitizer \<Rightarrow>
   (exn + sanitizeState) \<times> DataSanitizer" where
  "sanitizeLoop rt [] st san = (Inr st, san)"
| "sanitizeLoop rt (detection # rest) st san =
     (let strat = getStrategyForPIIType san (ptype detection)
      in case applySanitizationStrategy san (matched detection) (ptype detection) strat of
           (Inl e, san1) \<Rightarrow> (Inl e, san1)
         | (Inr replacement, san1) \<Rightarrow>
             (let beforeText = substring (runningText st) 0 (nat (startIndex detection));
                  afterText = substring (runningText st) (nat (endIndex detection))
                                (length (runningText st));
                  (h, san2) = hashValue san1 (matched detection);
                  action = \<lparr> piiType = ptype detection, strategy = strat,
                             originalValueHash = h, sanitizedValue = replacement,
                             positionStart = startIndex detection,
                             positionEnd = endIndex detection,
                             actionTimestamp = dateNow rt \<rparr>;
                  san3 = san2\<lparr>auditTrail := auditTrail san2 @ [action]\<rparr>;
                  updatedDetection =
                    detection\<lparr>endIndex := startIndex detection + int (length replacement)\<rparr>
              in sanitizeLoop rt rest
                   \<lparr> runningText = beforeText @ replacement @ afterText,
                     runningActions = runningActions st @ [action],
                     runningDetections = runningDetections st @ [updatedDetection] \<rparr>
                   san3))"

definition byStartDescending :: "PIIDetectionResult \<Rightarrow> PIIDetectionResult \<Rightarrow> real" where
  "byStartDescending a b = real_of_int (startIndex b - startIndex a)"

definition sanitizeText ::
  "DataSanitizer \<Rightarrow> runtime \<Rightarrow> string \<Rightarrow> PIIDetectionResult list \<Rightarrow>
   (exn + SanitizationResult) \<times> DataSanitizer" where
  "sanitizeText san rt text detections =
     (if length detections = 0
      then (Inr \<lparr> originalText = text, sanitizedText = text, sanitizedDetections = [],
                  actions = [], wasModified = False \<rparr>, san)
      else
        let sortedDetections = array_sort byStartDescending detections
        in case sanitizeLoop rt sortedDetections
                  \<lparr> runningText = text, runningActions = [], runningDetections = [] \<rparr> san of
             (Inl e, san') \<Rightarrow> (Inl e, san')
           | (Inr st, san') \<Rightarrow>
               (Inr \<lparr> originalText = text, sanitizedText = runningText st,
                      sanitizedDetections = runningDetections st,
                      actions = runningActions st, wasModified = True \<rparr>, san'))"

subsection \<open>The sanitized text as the specification words it\<close>

text \<open>
  \<open>replacementOf san d\<close> is the value that the strategy of the detection's type produces
  for it. \<open>splicedTo san text pos ds p\<close> is the text between the offsets \<open>pos\<close> and \<open>p\<close>
  in which the span of every detection of \<open>ds\<close> (in ascending order) is replaced by that
  value and every other character is kept, in its place between the replacements.
\<close>

definition replacementOf :: "DataSanitizer \<Rightarrow> PIIDetectionResult \<Rightarrow> exn + string" where
  "replacementOf san d =
     fst (applySanitizationStrategy san (matched d) (ptype d) (getStrategyForPIIType san (ptype d)))"

definition replacementText :: "DataSanitizer \<Rightarrow> PIIDetectionResult \<Rightarrow> string" where
  "replacementText san d = (case replacementOf san d of Inr r \<Rightarrow> r | Inl e \<Rightarrow> [])"

fun splicedTo :: "DataSanitizer \<Rightarrow> string \<Rightarrow> int \<Rightarrow> PIIDetectionResult list \<Rightarrow> int \<Rightarrow> string" where
  "splicedTo san text pos [] p = take (nat (p - pos)) (drop (nat pos) text)"
| "splicedTo san text pos (d # ds) p =
     take (nat (startIndex d - pos)) (drop (nat pos) text)
     @ replacementText san d
     @ splicedTo san text (endIndex d) ds p"

definition inRange :: "string \<Rightarrow> PIIDetectionResult \<Rightarrow> bool" where
  "inRange text d = (0 \<le> startIndex d \<and> startIndex d < endIndex d \<and> endIndex d \<le> int (length text))"

text \<open>Two states of a sanitizer that hash every value alike.\<close>

definition sameHashes :: "DataSanitizer \<Rightarrow> DataSanitizer \<Rightarrow> bool" where
  "sameHashes a b = (config a = config b \<and> (\<forall>v. fst (hashValue a v) = fst (hashValue b v)))"

section \<open>SecurityEngine\<close>

text \<open>
  The policy: of its fields \<open>scanLogEntry\<close> reads the confidence threshold, the consent
  flag and the automatic sanitization settings. A threshold may be missing for a type.
\<close>

record SecurityPolicy =
  policyVersion :: string
  piiSensitivity :: real
  minConfidenceThreshold :: real
  requireExplicitConsent :: bool
  autoSanitizationEnabled :: bool
  autoSanitizationThresholds :: "PIIType \<Rightarrow> real option"

record SecurityScanOptions =
  optUserId :: "string option"
  optMinConfidence :: "real option"
  optAutoSanitize :: "bool option"
  optPurpose :: "ProcessingPurpose option"
  optSkipConsentCheck :: "bool option"

record LogEntry =
  logId :: string
  logTimestamp :: int
  level :: LogLevel
  message :: string
  sanitizedMessage :: "string option"
  stackTrace :: "string option"
  classification :: "DataClassification option"

record SecurityScanResult =
  scanId :: string
  scanTimestamp :: int
  scannedText :: string
  detections :: "PIIDetectionResult list"
  riskScore :: real
  resultClassification :: DataClassification
  scanTimeMs :: real
  scanSuccessful :: bool
  scanErrors :: "string list"

datatype AlertSeverity = Low | Medium | High | Critical

datatype AlertType = Alert_pii_detected | Alert_consent_violation | Alert_data_breach | Alert_policy_violation

datatype alertDetail = AString string | ANumber int | ATypes "PIIType list" | ALevel SensitivityLevel

record SecurityAlert =
  alertId :: string
  severity :: AlertSeverity
  alertType :: AlertType
  alertMessage :: string
  alertDetails :: "(string \<times> alertDetail) list"
  alertTimestamp :: int
  resolved :: bool

text \<open>The statistics. \<open>minTimeMs\<close> starts as \<open>Infinity\<close>, here \<open>None\<close>.\<close>

record SecurityEngineStatistics =
  totalScans :: nat
  totalPIIDetected :: nat
  totalSanitizations :: nat
  averageTimeMs :: real
  minTimeMs :: "real option"
  maxTimeMs :: real
  detectionStats :: "PIIType \<Rightarrow> nat option"
  riskLevelDistribution :: "SensitivityLevel \<Rightarrow> nat"
  consentTotalUsers :: nat
  compliantScans :: nat
  nonCompliantScans :: nat

record SecurityEngine =
  piiDetector :: PIIDetector
  dataSanitizer :: DataSanitizer
  consentManager :: ConsentManager
  securityPolicy :: SecurityPolicy
  statistics :: SecurityEngineStatistics
  alerts :: "(string \<times> SecurityAlert) list"
  scanHistory :: "(string \<times> SecurityScanResult list) list"

definition generateScanId :: "runtime \<Rightarrow> string" where
  "generateScanId rt = ''scan_'' @ numberToString (dateNow rt) @ ''_'' @ randomId rt 0"

definition generateAlertId :: "runtime \<Rightarrow> nat \<Rightarrow> string" where
  "generateAlertId rt k = ''alert_'' @ numberToString (dateNow rt) @ ''_'' @ randomId rt k"

definition applySecurityPolicyFiltering :: "SecurityPolicy \<Rightarrow> PIIDetectionResult list \<Rightarrow> PIIDetectionResult list" where
  "applySecurityPolicyFiltering policy ds =
     filter (\<lambda>detection.
        if confidence detection < minConfidenceThreshold policy then False
        else (case autoSanitizationThresholds policy (ptype detection) of
                Some threshold \<Rightarrow> if confidence detection < threshold then False else True
              | None \<Rightarrow> True)) ds"

definition shouldAutoSanitize :: "SecurityPolicy \<Rightarrow> PIIDetectionResult list \<Rightarrow> bool" where
  "shouldAutoSanitize policy ds =
     (if \<not> autoSanitizationEnabled policy then False
      else list_ex (\<lambda>detection.
             case autoSanitizationThresholds policy (ptype detection) of
               Some threshold \<Rightarrow> confidence detection \<ge> threshold
             | None \<Rightarrow> False) ds)"

text \<open>\<open>userId || 'unknown'\<close> in the details of an alert.\<close>

definition generateSecurityAlerts ::
  "runtime \<Rightarrow> SecurityEngine \<Rightarrow> string \<Rightarrow> PIIDetectionResult list \<Rightarrow> DataClassification \<Rightarrow>
   string option \<Rightarrow> SecurityEngine" where
  "generateSecurityAlerts rt eng sid ds cls uid =
     (let eng1 =
            (if sensitivityLevel cls = Restricted
             then eng\<lparr>alerts := AList.update (generateAlertId rt 1)
                    \<lparr> alertId = generateAlertId rt 1, severity = High,
                      alertType = Alert_pii_detected,
                      alertMessage = ''High-risk PII detected in scan '' @ sid,
                      alertDetails = [(''scanId'', AString sid),
                                      (''detectedTypes'', ATypes (detectedTypes cls)),
                                      (''sensitivityLevel'', ALevel (sensitivityLevel cls)),
                                      (''userId'', AString (orUnknown uid))],
                      alertTimestamp = dateNow rt, resolved = False \<rparr> (alerts eng)\<rparr>
             else eng)
      in if length ds \<ge> 3
         then eng1\<lparr>alerts := AList.update (generateAlertId rt 2)
                \<lparr> alertId = generateAlertId rt 2, severity = Medium,
                  alertType = Alert_pii_detected,
                  alertMessage = ''Multiple PII types detected in single scan: ''
                                 @ numberToString (int (length ds)) @ '' types found'',
                  alertDetails = [(''scanId'', AString sid),
                                  (''detectionCount'', ANumber (int (length ds))),
                                  (''detectedTypes'', ATypes (detectedTypes cls)),
                                  (''userId'', AString (orUnknown uid))],
                  alertTimestamp = dateNow rt, resolved = False \<rparr> (alerts eng1)\<rparr>
         else eng1)"

definition updateStatistics ::
  "SecurityEngineStatistics \<Rightarrow> SecurityScanResult \<Rightarrow> PIIDetectionResult list \<Rightarrow> SecurityEngineStatistics" where
  "updateStatistics stats scanResult ds =
     (let total = totalScans stats + 1;
          currentAvg = averageTimeMs stats
      in stats\<lparr> totalScans := total,
                 totalPIIDetected := totalPIIDetected stats + length ds,
                 averageTimeMs := (currentAvg * (real total - 1) + scanTimeMs scanResult) / real total,
                 minTimeMs := Some (case minTimeMs stats of
                                      None \<Rightarrow> scanTimeMs scanResult
                                    | Some m \<Rightarrow> min m (scanTimeMs scanResult)),
                 maxTimeMs := max (maxTimeMs stats) (scanTimeMs scanResult),
                 detectionStats :=
                   foldl (\<lambda>counts detection.
                            counts(ptype detection \<mapsto>
                              (case counts (ptype detection) of None \<Rightarrow> 0 | Some n \<Rightarrow> n) + 1))
                     (detectionStats stats) ds,
                 riskLevelDistribution :=
                   (riskLevelDistribution stats)
                     (sensitivityLevel (resultClassification scanResult) :=
                        riskLevelDistribution stats (sensitivityLevel (resultClassification scanResult)) + 1) \<rparr>)"

definition updateConsentComplianceStats :: "SecurityEngine \<Rightarrow> bool \<Rightarrow> SecurityEngine" where
  "updateConsentComplianceStats eng compliant =
     (if compliant
      then eng\<lparr>statistics := (statistics eng)\<lparr>compliantScans := compliantScans (statistics eng) + 1\<rparr>\<rparr>
      else eng\<lparr>statistics := (statistics eng)\<lparr>nonCompliantScans := nonCompliantScans (statistics eng) + 1\<rparr>\<rparr>)"

text \<open>\<open>storeScanResult\<close>: the history is a \<open>Map\<close> from scan id to results; past 1000 keys the
  first key goes.\<close>

definition storeScanResult ::
  "(string \<times> SecurityScanResult list) list \<Rightarrow> string \<Rightarrow> SecurityScanResult \<Rightarrow>
   (string \<times> SecurityScanResult list) list" where
  "storeScanResult history sid scanResult =
     (let h1 = (if map_of history sid = None then AList.update sid [] history else history);
          h2 = AList.update sid ((case map_of h1 sid of Some rs \<Rightarrow> rs | None \<Rightarrow> []) @ [scanResult]) h1
      in if length h2 > 1000 then AList.delete (fst (hd h2)) h2 else h2)"

text \<open>\<open>createFailedScanResult\<close>; \<open>scanTimeMs || 0\<close>.\<close>

definition createFailedScanResult ::
  "runtime \<Rightarrow> string \<Rightarrow> string \<Rightarrow> string list \<Rightarrow> real option \<Rightarrow> SecurityScanResult" where
  "createFailedScanResult rt sid txt errors t =
     \<lparr> scanId = sid, scanTimestamp = dateNow rt, scannedText = txt, detections = [],
       riskScore = 0,
       resultClassification =
         \<lparr> sensitivityLevel = Public, detectedTypes = [], classConfidence = 0,
           classTimestamp = dateNow rt, sanitized = False \<rparr>,
       scanTimeMs = (case t of None \<Rightarrow> 0 | Some ms \<Rightarrow> ms),
       scanSuccessful = False, scanErrors = errors \<rparr>"

text \<open>
  \<open>error instanceof Error ? error.message : 'Unknown error'\<close>. The message of the
  \<open>RangeError\<close> is the host's; this is V8's.
\<close>

definition errorMessage :: "exn \<Rightarrow> string" where
  "errorMessage e =
     (case e of
        ErrorObject m \<Rightarrow> m
      | RepeatRangeError n \<Rightarrow> ''Invalid count value: '' @ numberToString n
      | NonError \<Rightarrow> ''Unknown error'')"

text \<open>
  \<open>scanLogEntry\<close>. The result is the scan result, the engine after the call and the
  caller's log entry after the call; \<open>None\<close> is a call that never returns. The \<open>catch\<close>
  block turns an exception of the detector or the sanitizer into a failed result; what
  was written before the exception stays written.
\<close>

definition consentStep ::
  "runtime \<Rightarrow> SecurityEngine \<Rightarrow> SecurityScanOptions \<Rightarrow> bool \<times> SecurityEngine" where
  "consentStep rt eng options =
     (if (case optUserId options of None \<Rightarrow> False | Some u \<Rightarrow> u \<noteq> [])
         \<and> \<not> (optSkipConsentCheck options = Some True)
      then
        (let purpose = (case optPurpose options of None \<Rightarrow> Logging | Some p \<Rightarrow> p);
             consentVerification =
               verifyConsent rt (consentManager eng) (the (optUserId options)) purpose
         in if \<not> isValid consentVerification
            then (False, updateConsentComplianceStats eng False)
            else (True, updateConsentComplianceStats eng True))
      else (True, eng))"

text \<open>The automatic sanitization, when the options, the policy and the consent allow it.\<close>

definition autoSanitizeStep ::
  "runtime \<Rightarrow> SecurityEngine \<Rightarrow> bool \<Rightarrow> SecurityScanOptions \<Rightarrow> LogEntry \<Rightarrow>
   PIIDetectionResult list \<Rightarrow> (exn + SanitizationResult option) \<times> DataSanitizer" where
  "autoSanitizeStep rt eng consentValid options logEntry filteredDetections =
     (if optAutoSanitize options \<noteq> Some False
         \<and> autoSanitizationEnabled (securityPolicy eng)
         \<and> consentValid
         \<and> shouldAutoSanitize (securityPolicy eng) filteredDetections
      then (case sanitizeText (dataSanitizer eng) rt (message logEntry) filteredDetections of
              (Inl e, san) \<Rightarrow> (Inl e, san)
            | (Inr sanitizationResult, san) \<Rightarrow> (Inr (Some sanitizationResult), san))
      else (Inr None, dataSanitizer eng))"

text \<open>The end of a scan that did not throw: the result, the caller's log entry, the
  statistics and the history.\<close>

definition completeScan ::
  "runtime \<Rightarrow> SecurityEngine \<Rightarrow> LogEntry \<Rightarrow> string \<Rightarrow> PIIDetectionResult list \<Rightarrow> real \<Rightarrow>
   DataClassification \<Rightarrow> SanitizationResult option \<Rightarrow> SecurityScanResult \<times> SecurityEngine \<times> LogEntry" where
  "completeScan rt eng logEntry sid filteredDetections risk cls sanitizationResult =
     (let scanResult =
            \<lparr> scanId = sid, scanTimestamp = dateNow rt, scannedText = message logEntry,
              detections = filteredDetections, riskScore = risk, resultClassification = cls,
              scanTimeMs = engineScanTime rt, scanSuccessful = True, scanErrors = [] \<rparr>;
          logEntry1 =
            (case sanitizationResult of
               Some res \<Rightarrow>
                 if wasModified res then logEntry\<lparr>sanitizedMessage := Some (sanitizedText res)\<rparr>
                 else logEntry
             | None \<Rightarrow> logEntry);
          logEntry2 = logEntry1\<lparr>classification := Some cls\<rparr>;
          eng1 = eng\<lparr>statistics := updateStatistics (statistics eng) scanResult filteredDetections\<rparr>;
          eng2 = eng1\<lparr>scanHistory := storeScanResult (scanHistory eng1) sid scanResult\<rparr>
      in (scanResult, eng2, logEntry2))"

definition scanLogEntry ::
  "runtime \<Rightarrow> SecurityEngine \<Rightarrow> LogEntry \<Rightarrow> SecurityScanOptions \<Rightarrow>
   (SecurityScanResult \<times> SecurityEngine \<times> LogEntry) option" where
  "scanLogEntry rt eng logEntry options =
     (let sid = generateScanId rt;
          (consentValid, eng1) = consentStep rt eng options
      in if \<not> consentValid \<and> requireExplicitConsent (securityPolicy eng1)
         then Some (createFailedScanResult rt sid (message logEntry)
                      [''Consent not provided or invalid''] None, eng1, logEntry)
         else
           let minConfidence =
                 (case optMinConfidence options of
                    None \<Rightarrow> minConfidenceThreshold (securityPolicy eng1)
                  | Some c \<Rightarrow> if c = 0 then minConfidenceThreshold (securityPolicy eng1) else c)
           in case scanText (piiDetector eng1) rt (message logEntry) minConfidence of
                None \<Rightarrow> None
              | Some (Inl e, det) \<Rightarrow>
                  Some (createFailedScanResult rt sid (message logEntry) [errorMessage e]
                          (Some (engineScanTime rt)),
                        eng1\<lparr>piiDetector := det\<rparr>, logEntry)
              | Some (Inr found, det) \<Rightarrow>
                  (let eng2 = eng1\<lparr>piiDetector := det\<rparr>;
                       filteredDetections = applySecurityPolicyFiltering (securityPolicy eng2) found;
                       risk = calculateRiskScore filteredDetections (level logEntry);
                       cls = classifyData (dateNow rt) filteredDetections risk;
                       eng3 = generateSecurityAlerts rt eng2 sid filteredDetections cls
                                (optUserId options)
                   in case autoSanitizeStep rt eng3 consentValid options logEntry filteredDetections of
                        (Inl e, san) \<Rightarrow>
                          Some (createFailedScanResult rt sid (message logEntry) [errorMessage e]
                                  (Some (engineScanTime rt)),
                                eng3\<lparr>dataSanitizer := san\<rparr>, logEntry)
                      | (Inr sanitizationResult, san) \<Rightarrow>
                          Some (completeScan rt (eng3\<lparr>dataSanitizer := san\<rparr>) logEntry sid
                                  filteredDetections risk cls sanitizationResult)))"

text \<open>
  The engine that the constructor builds: empty alerts and history, zeroed statistics,
  and a count of 0 for every type that the detector supports.
\<close>

definition getSupportedPIITypes :: "PIIDetector \<Rightarrow> PIIType list" where
  "getSupportedPIITypes det = remdups (map fst (patterns det) @ map patternType (customPatterns det))"

definition newSecurityEngine ::
  "SecurityPolicy \<Rightarrow> ConsentManager \<Rightarrow> PIIDetector \<Rightarrow> DataSanitizer \<Rightarrow> SecurityEngine" where
  "newSecurityEngine policy cm det san =
     \<lparr> piiDetector = det, dataSanitizer = san, consentManager = cm, securityPolicy = policy,
       statistics =
         \<lparr> totalScans = 0, totalPIIDetected = 0, totalSanitizations = 0, averageTimeMs = 0,
           minTimeMs = None, maxTimeMs = 0,
           detectionStats = (\<lambda>t. if t \<in> set (getSupportedPIITypes det) then Some 0 else None),
           riskLevelDistribution = (\<lambda>l. 0),
           consentTotalUsers = 0, compliantScans = 0, nonCompliantScans = 0 \<rparr>,
       alerts = [], scanHistory = [] \<rparr>"

subsection \<open>Outcomes of a scan as the specification words them\<close>

text \<open>
  \<open>failedByConsent r\<close>: the failed result of the consent gate. \<open>tallied eng c n\<close>: the
  engine \<open>eng\<close> with \<open>c\<close> more compliant and \<open>n\<close> more non-compliant scans in its tally and
  nothing else changed.
\<close>

definition failedByConsent :: "LogEntry \<Rightarrow> SecurityScanResult \<Rightarrow> bool" where
  "failedByConsent logEntry r =
     (\<not> scanSuccessful r \<and> detections r = [] \<and> riskScore r = 0
      \<and> sensitivityLevel (resultClassification r) = Public
      \<and> scanErrors r = [''Consent not provided or invalid'']
      \<and> scannedText r = message logEntry)"

definition tallied :: "SecurityEngine \<Rightarrow> nat \<Rightarrow> nat \<Rightarrow> SecurityEngine" where
  "tallied eng c n =
     eng\<lparr>statistics := (statistics eng)\<lparr>
            compliantScans := compliantScans (statistics eng) + c,
            nonCompliantScans := nonCompliantScans (statistics eng) + n\<rparr>\<rparr>"

definition purposeOf :: "SecurityScanOptions \<Rightarrow> ProcessingPurpose" where
  "purposeOf options = (case optPurpose options of None \<Rightarrow> Logging | Some p \<Rightarrow> p)"

definition minConfidenceOf :: "SecurityPolicy \<Rightarrow> SecurityScanOptions \<Rightarrow> real" where
  "minConfidenceOf policy options =
     (case optMinConfidence options of
        None \<Rightarrow> minConfidenceThreshold policy
      | Some c \<Rightarrow> if c = 0 then minConfidenceThreshold policy else c)"

text \<open>
  \<open>consentRefused\<close>: the options name a user, the consent check is not skipped, and the
  consent manager reports the consent for the purpose of the scan invalid.
\<close>

definition consentRefused :: "runtime \<Rightarrow> SecurityEngine \<Rightarrow> SecurityScanOptions \<Rightarrow> bool" where
  "consentRefused rt eng options =
     (case optUserId options of
        None \<Rightarrow> False
      | Some uid \<Rightarrow>
          uid \<noteq> [] \<and> optSkipConsentCheck options \<noteq> Some True
          \<and> \<not> isValid (verifyConsent rt (consentManager eng) uid (purposeOf options)))"

section \<open>Example values\<close>

definition example_ssn :: PIIDetectionResult where
  "example_ssn = \<lparr> ptype = SSN, matched = ''123-45-6789'', startIndex = 5, endIndex = 16,
     confidence = 0.8, patternName = ''ssn_standard'', highConfidence = True \<rparr>"

definition example_email :: PIIDetectionResult where
  "example_email = \<lparr> ptype = Email, matched = ''john@example.com'', startIndex = 20, endIndex = 36,
     confidence = 0.95, patternName = ''email_standard'', highConfidence = True \<rparr>"

definition example_runtime :: runtime where
  "example_runtime =
     \<lparr> dateNow = 1700000000000, randomId = (\<lambda>k. ''r'' @ decimal k),
       addDays = (\<lambda>t n. t + n * 86400000), detectorScanTime = 1, engineScanTime = 2 \<rparr>"

definition example_manager :: ConsentManager where
  "example_manager = newConsentManager GDPR 365"

definition example_entry :: "string \<Rightarrow> AuditLogEntry" where
  "example_entry i =
     \<lparr> entryId = i, timestamp = 0, eventType = Consent_given, entryUserId = Some ''u1'',
       details = [], entryIpAddress = ''10.0.0.1'', entryUserAgent = ''agent'',
       gdpr = True, ccpa = False, hipaa = False \<rparr>"

definition full_manager :: ConsentManager where
  "full_manager = example_manager\<lparr>auditLog := replicate 10000 (example_entry ''old'')\<rparr>"

text \<open>
  A regular expression that is a literal of digits and punctuation: \<open>exec\<close> finds its
  first occurrence at or after \<open>lastIndex\<close>.
\<close>

fun findFrom :: "string \<Rightarrow> string \<Rightarrow> nat \<Rightarrow> nat option" where
  "findFrom needle [] i = (if needle = [] then Some i else None)"
| "findFrom needle (c # cs) i =
     (if take (length needle) (c # cs) = needle then Some i else findFrom needle cs (Suc i))"

definition literalExec :: "string \<Rightarrow> string \<Rightarrow> nat \<Rightarrow> (nat \<times> string) option" where
  "literalExec needle text lastIndex =
     (if lastIndex > length text then None
      else map_option (\<lambda>i. (i, needle)) (findFrom needle (drop lastIndex text) lastIndex))"

definition ssn_literal :: PIIPattern where
  "ssn_literal =
     \<lparr> pname = ''ssn_literal'', patternType = SSN, regexExec = literalExec ''123-45-6789'',
       validator = None, baseConfidence = 0.8, requiresContext = True,
       patternDescription = ''one social security number'' \<rparr>"

definition phone_literal :: PIIPattern where
  "phone_literal =
     \<lparr> pname = ''phone_literal'', patternType = Phone, regexExec = literalExec ''45-6789'',
       validator = None, baseConfidence = 0.85, requiresContext = False,
       patternDescription = ''part of a phone number'' \<rparr>"

definition digits_literal :: PIIPattern where
  "digits_literal =
     \<lparr> pname = ''digits_literal'', patternType = Custom, regexExec = literalExec ''123'',
       validator = Some (\<lambda>v. Inr (length v = 3)), baseConfidence = 0.85, requiresContext = False,
       patternDescription = ''three digits'' \<rparr>"

definition rejected_literal :: PIIPattern where
  "rejected_literal =
     \<lparr> pname = ''rejected_literal'', patternType = Custom, regexExec = literalExec ''6789'',
       validator = Some (\<lambda>v. Inr False), baseConfidence = 0.9, requiresContext = False,
       patternDescription = ''four digits that the validator rejects'' \<rparr>"

definition example_detector :: PIIDetector where
  "example_detector =
     \<lparr> patterns = [(SSN, [ssn_literal]), (Phone, [phone_literal])],
       customPatterns = [digits_literal, rejected_literal],
       metricTotalScans = 0, metricTotalScanTimeMs = 0, metricAverageScanTimeMs = 0,
       metricLastScanTimeMs = 0 \<rparr>"

definition detection ::
  "PIIType \<Rightarrow> string \<Rightarrow> int \<Rightarrow> int \<Rightarrow> real \<Rightarrow> string \<Rightarrow> PIIDetectionResult" where
  "detection t v s e c n =
     \<lparr> ptype = t, matched = v, startIndex = s, endIndex = e, confidence = c,
       patternName = n, highConfidence = (c \<ge> 0.8) \<rparr>"

definition email_literal :: PIIPattern where
  "email_literal =
     \<lparr> pname = ''email_literal'', patternType = Email, regexExec = literalExec ''@example.com'',
       validator = None, baseConfidence = 0.9, requiresContext = False,
       patternDescription = ''a domain after an at sign'' \<rparr>"

definition domain_detector :: PIIDetector where
  "domain_detector =
     \<lparr> patterns = [(SSN, [ssn_literal])], customPatterns = [email_literal],
       metricTotalScans = 0, metricTotalScanTimeMs = 0, metricAverageScanTimeMs = 0,
       metricLastScanTimeMs = 0 \<rparr>"

definition example_policy :: "bool \<Rightarrow> real \<Rightarrow> SecurityPolicy" where
  "example_policy explicit threshold =
     \<lparr> policyVersion = ''1.0'', piiSensitivity = 0.8, minConfidenceThreshold = threshold,
       requireExplicitConsent = explicit, autoSanitizationEnabled = True,
       autoSanitizationThresholds = (\<lambda>t. Some threshold) \<rparr>"

definition example_engine :: "bool \<Rightarrow> real \<Rightarrow> PIIDetector \<Rightarrow> SecurityEngine" where
  "example_engine explicit threshold det =
     newSecurityEngine (example_policy explicit threshold) example_manager det
       (newDataSanitizer ''salt'')"

definition example_log :: "string \<Rightarrow> LogEntry" where
  "example_log m =
     \<lparr> logId = ''log1'', logTimestamp = 0, level = Level_log, message = m,
       sanitizedMessage = None, stackTrace = None, classification = None \<rparr>"

definition example_options :: "string option \<Rightarrow> SecurityScanOptions" where
  "example_options uid =
     \<lparr> optUserId = uid, optMinConfidence = None, optAutoSanitize = None, optPurpose = None,
       optSkipConsentCheck = None \<rparr>"

section \<open>Risk score and classification: results\<close>

lemma typeRisk_severity_base: "typeRisk t = severity_base t"
  by (cases t) (simp_all add: severity_base_def)

lemma foldl_max_ge_start:
  "(a::real) \<le> foldl (\<lambda>r d. max r (f d)) a ds"
proof (induction ds arbitrary: a)
  case Nil
  show ?case by simp
next
  case (Cons d ds)
  have "a \<le> max a (f d)" by simp
  also have "\<dots> \<le> foldl (\<lambda>r d. max r (f d)) (max a (f d)) ds" by (rule Cons.IH)
  finally show ?case by simp
qed

lemma foldl_max_Max:
  "ds \<noteq> [] \<Longrightarrow> foldl (\<lambda>r d. max r (f d)) (a::real) ds = max a (Max (set (map f ds)))"
proof (induction ds arbitrary: a)
  case Nil
  then show ?case by simp
next
  case (Cons d ds)
  show ?case
  proof (cases "ds = []")
    case True
    then show ?thesis by simp
  next
    case False
    then have "foldl (\<lambda>r d. max r (f d)) (max a (f d)) ds = max (max a (f d)) (Max (set (map f ds)))"
      by (rule Cons.IH)
    moreover have "Max (set (map f (d # ds))) = max (f d) (Max (set (map f ds)))"
      using False by (simp add: Max_insert)
    ultimately show ?thesis by (simp add: max.assoc)
  qed
qed


lemma gt_one_mult:
  fixes x :: real
  assumes "1 < x" and "1 \<le> y"
  shows "1 < x * y"
proof -
  have "0 \<le> x" using assms(1) by simp
  then have "x * 1 \<le> x * y" using assms(2) by (rule mult_left_mono[rotated])
  then have "x \<le> x * y" by (simp only: mult_1_right)
  with assms(1) show ?thesis by linarith
qed

lemma clamp_step:
  assumes b: "0 \<le> b" and f: "1 \<le> f"
  shows "clamp01 (clamp01 b * f) = min 1 (b * f)"
proof (cases "b \<le> 1")
  case True
  have "0 \<le> b * f" using b f by simp
  then show ?thesis using True b by (simp add: clamp01_def)
next
  case False
  then have "1 < b * f" using f by (intro gt_one_mult) simp_all
  then show ?thesis using False f by (simp add: clamp01_def)
qed

lemma clamp_step2:
  assumes b: "0 \<le> b" and f: "1 \<le> f" and g: "1 \<le> g"
  shows "clamp01 (clamp01 (clamp01 b * f) * g) = min 1 (b * f * g)"
proof -
  have bf: "0 \<le> b * f" using b f by simp
  have "clamp01 (min 1 (b * f)) = min 1 (b * f)" using bf by (simp add: clamp01_def)
  then have "clamp01 (clamp01 (clamp01 b * f) * g) = clamp01 (clamp01 (b * f) * g)"
    using clamp_step[OF b f] bf by (simp add: clamp01_def)
  also have "\<dots> = min 1 (b * f * g)" by (rule clamp_step[OF bf g])
  finally show ?thesis .
qed

lemma level_factor_ge1: "1 \<le> level_factor l"
  by (simp add: level_factor_def)

lemma multiplier_level_factor:
  "(if l = Level_error then 1.2 else if l = Level_warn then 1.1 else (1.0::real)) = level_factor l"
  by (simp add: level_factor_def)

lemma calculateRiskScore_unfold:
  assumes "ds \<noteq> []"
  shows "calculateRiskScore ds l =
    (let b = max 0 (Max (set (map (\<lambda>d. severity_base (ptype d) * confidence d) ds)));
         g = 1 + (real (length ds) - 1) * 0.1
     in min 1 (if length ds > 1 then min 1 (b * level_factor l * g) else b * level_factor l))"
proof -
  have fold: "foldl (\<lambda>riskScore detection. max riskScore (typeRisk (ptype detection) * confidence detection)) 0 ds
      = max 0 (Max (set (map (\<lambda>d. severity_base (ptype d) * confidence d) ds)))"
    using foldl_max_Max[OF assms, of "\<lambda>d. typeRisk (ptype d) * confidence d" 0]
    by (simp add: typeRisk_severity_base)
  show ?thesis
    unfolding calculateRiskScore_def multiplier_level_factor fold Let_def
    using assms by simp
qed

text \<open>
  Claim C4. For every list of surviving detections and every log level, the risk score
  that \<open>calculateRiskScore\<close> returns is the one the specification describes: 0 for no
  detection; otherwise the largest severity base times confidence, times the log-level
  factor, times \<open>1 + 0.1 \<times> (count - 1)\<close> when more than one detection survived, each
  step clamped to the interval from 0 to 1. The code clamps from below through the
  loop's start value 0 and from above once at the end (and once after the count factor);
  as both factors are at least 1, the result is the same.
\<close>

theorem C4_risk_score_formula:
  "calculateRiskScore ds l = spec_riskScore ds l"
proof (cases "ds = []")
  case True
  then show ?thesis by (simp add: calculateRiskScore_def spec_riskScore_def)
next
  case False
  define M where "M = Max (set (map (\<lambda>d. severity_base (ptype d) * confidence d) ds))"
  define b where "b = max 0 M"
  define f where "f = level_factor l"
  define g where "g = 1 + 0.1 * (real (length ds) - 1)"
  have b0: "0 \<le> b" by (simp add: b_def)
  have cb: "clamp01 M = clamp01 b" by (simp add: clamp01_def b_def)
  have f1: "1 \<le> f" unfolding f_def by (rule level_factor_ge1)
  have code: "calculateRiskScore ds l = min 1 (if length ds > 1 then min 1 (b * f * g) else b * f)"
    unfolding calculateRiskScore_unfold[OF False] Let_def b_def M_def f_def g_def
    by (simp add: mult.commute)
  have spec: "spec_riskScore ds l =
      (if length ds > 1 then clamp01 (clamp01 (clamp01 b * f) * g) else clamp01 (clamp01 b * f))"
    unfolding spec_riskScore_def Let_def using False cb
    by (simp add: M_def f_def g_def)
  show ?thesis
  proof (cases "length ds > 1")
    case True
    then have g1: "1 \<le> g" by (simp add: g_def)
    show ?thesis unfolding code spec using True clamp_step2[OF b0 f1 g1] by simp
  next
    case F2: False
    show ?thesis unfolding code spec using F2 clamp_step[OF b0 f1] by simp
  qed
qed

theorem C4_risk_score_formula_witness:
  "calculateRiskScore [example_ssn, example_email] Level_warn = 0.8712
   \<and> spec_riskScore [example_ssn, example_email] Level_warn = 0.8712
   \<and> calculateRiskScore [example_ssn, example_email] Level_error = 0.9504
   \<and> calculateRiskScore [] Level_error = 0"
proof -
  have code: "calculateRiskScore [example_ssn, example_email] Level_warn = 0.8712"
    by (simp add: calculateRiskScore_def example_ssn_def example_email_def)
  have code2: "calculateRiskScore [example_ssn, example_email] Level_error = 0.9504"
    by (simp add: calculateRiskScore_def example_ssn_def example_email_def)
  have code3: "calculateRiskScore [] Level_error = 0"
    by (simp add: calculateRiskScore_def)
  show ?thesis
    using C4_risk_score_formula[of "[example_ssn, example_email]" Level_warn] code code2 code3
    by simp
qed

text \<open>
  Claim C5. For every list of surviving detections and every risk score, the sensitivity
  level that \<open>classifyData\<close> assigns is: restricted if the risk score is at least 0.8 or
  some detection is a credit card, SSN or password; otherwise confidential if the risk
  score is at least 0.6 or some detection is an API key or JWT; otherwise internal if the
  risk score is at least 0.3 or there is any detection; otherwise public.
\<close>

theorem C5_classification_levels:
  "sensitivityLevel (classifyData now ds risk) = spec_sensitivity ds risk"
  by (auto simp add: classifyData_def sensitivityOf_def spec_sensitivity_def list_ex_iff)

theorem C5_classification_levels_witness:
  "sensitivityLevel (classifyData 0 [example_email] 0.57) = Internal
   \<and> spec_sensitivity [example_email] 0.57 = Internal
   \<and> sensitivityLevel (classifyData 0 [example_ssn] 0.1) = Restricted
   \<and> sensitivityLevel (classifyData 0 [] 0.1) = Public"
proof -
  have "spec_sensitivity [example_email] 0.57 = Internal"
    by (simp add: spec_sensitivity_def example_email_def)
  moreover have "sensitivityLevel (classifyData 0 [example_ssn] 0.1) = Restricted"
    by (simp add: classifyData_def sensitivityOf_def example_ssn_def)
  moreover have "sensitivityLevel (classifyData 0 [] 0.1) = Public"
    by (simp add: classifyData_def sensitivityOf_def)
  ultimately show ?thesis
    using C5_classification_levels[of 0 "[example_email]" "0.57"] by simp
qed

section \<open>ConsentManager: results\<close>

lemma newest_all: "length xs \<le> n \<Longrightarrow> newest n xs = xs"
  by (simp add: newest_def)

lemma length_newest: "length (newest n xs) = min n (length xs)"
  by (auto simp add: newest_def)

lemma newest_newest_append: "newest n (newest n xs @ ys) = newest n (xs @ ys)"
proof (cases "length xs \<le> n")
  case True
  then show ?thesis by (simp add: newest_all)
next
  case False
  then have len: "n < length xs" by simp
  have "newest n (newest n xs @ ys) = drop (length ys) (drop (length xs - n) xs @ ys)"
    using len by (simp add: newest_def)
  also have "\<dots> = drop (length ys) (drop (length xs - n) (xs @ ys))"
    by simp
  also have "\<dots> = drop (length xs - n + length ys) (xs @ ys)"
    by (simp only: drop_drop add.commute)
  also have "\<dots> = newest n (xs @ ys)"
    using len by (simp add: newest_def)
  finally show ?thesis .
qed

lemma auditLog_addAuditLogEntry:
  "auditLog (addAuditLogEntry cm e) = newest 10000 (auditLog cm @ [e])"
  by (simp add: addAuditLogEntry_def newest_def Let_def)

lemma addAuditLogEntry_fields [simp]:
  "preferences (addAuditLogEntry cm e) = preferences cm"
  "dataSubjectRequests (addAuditLogEntry cm e) = dataSubjectRequests cm"
  "jurisdiction (addAuditLogEntry cm e) = jurisdiction cm"
  "consentExpiryDays (addAuditLogEntry cm e) = consentExpiryDays cm"
  by (simp_all add: addAuditLogEntry_def Let_def)

lemma length_addAuditLogEntry: "length (auditLog (addAuditLogEntry cm e)) \<le> 10000"
  by (simp add: auditLog_addAuditLogEntry length_newest)

lemma recordConsent_purposes_capped:
  "capped cm \<Longrightarrow> capped (snd (recordConsent_purposes rt uid st ip ua k ps (prefs, cm)))"
proof (induction ps arbitrary: prefs cm k)
  case Nil
  then show ?case by simp
next
  case (Cons p ps)
  have "capped (addAuditLogEntry cm e)" for e
    by (simp add: capped_def length_addAuditLogEntry)
  then show ?case by (simp add: Let_def Cons.IH)
qed

lemma withdrawConsent_purposes_capped:
  "capped cm \<Longrightarrow> capped (snd (withdrawConsent_purposes rt uid ip ua k ps (prefs, cm)))"
proof (induction ps arbitrary: prefs cm k)
  case Nil
  then show ?case by simp
next
  case (Cons p ps)
  have "capped (addAuditLogEntry cm e)" for e
    by (simp add: capped_def length_addAuditLogEntry)
  then show ?case by (simp add: Let_def Cons.IH)
qed

lemma capped_preferences_update [simp]: "capped (cm\<lparr>preferences := x\<rparr>) = capped cm"
  by (simp add: capped_def)

lemma capped_requests_update [simp]: "capped (cm\<lparr>dataSubjectRequests := x\<rparr>) = capped cm"
  by (simp add: capped_def)

lemma capped_add [simp]: "capped (addAuditLogEntry cm e)"
  by (simp add: capped_def length_addAuditLogEntry)

lemma call_capped: "capped cm \<Longrightarrow> capped (call rt cm c)"
proof (cases c)
  case (RecordConsent uid ps given ip ua)
  assume c: "capped cm"
  show ?thesis
    using recordConsent_purposes_capped[OF c]
    by (simp add: RecordConsent recordConsent_def Let_def split: prod.splits)
      (metis snd_conv)
next
  case (WithdrawConsent uid ps ip ua)
  assume c: "capped cm"
  show ?thesis
    using withdrawConsent_purposes_capped[OF c] c
    by (simp add: WithdrawConsent withdrawConsent_def Let_def split: prod.splits option.splits)
      (metis snd_conv)
next
  case (UpdateDataRetention uid hours)
  assume c: "capped cm"
  then show ?thesis
    by (simp add: UpdateDataRetention updateDataRetention_def Let_def split: option.splits)
next
  case (SubmitDataSubjectRequest uid rtype descr)
  then show ?thesis
    by (simp add: submitDataSubjectRequest_def Let_def)
next
  case (ProcessDataDeletion uid)
  then show ?thesis
    by (simp add: processDataDeletion_def Let_def)
qed

lemma calls_capped: "capped cm \<Longrightarrow> capped (calls cm cs)"
  by (induction cs arbitrary: cm) (auto simp add: call_capped)

text \<open>
  Claim C7. The audit log never holds more than 10,000 entries: after any sequence of calls
  that append audit entries (consent recording, withdrawal, retention updates, data-subject
  requests, deletions) on a new manager its length is at most 10,000; every single append
  leaves at most 10,000 entries; and an append keeps the newest 10,000 entries of the old
  log followed by the new entry, so the oldest are pruned first.
\<close>

theorem C7_audit_log_cap:
  "length (auditLog (calls (newConsentManager j days) cs)) \<le> 10000
   \<and> length (auditLog (addAuditLogEntry cm e)) \<le> 10000
   \<and> auditLog (addAuditLogEntry cm e) = newest 10000 (auditLog cm @ [e])"
proof -
  have "capped (newConsentManager j days)"
    by (simp add: capped_def newConsentManager_def)
  then have "capped (calls (newConsentManager j days) cs)"
    by (rule calls_capped)
  then have "length (auditLog (calls (newConsentManager j days) cs)) \<le> 10000"
    by (simp add: capped_def)
  then show ?thesis
    using length_addAuditLogEntry[of cm e] auditLog_addAuditLogEntry[of cm e] by blast
qed

theorem C7_audit_log_cap_witness:
  "length (auditLog (calls (newConsentManager GDPR 365)
      [(example_runtime, RecordConsent ''u1'' [Logging, Analytics] True ''10.0.0.1'' ''agent''),
       (example_runtime, ProcessDataDeletion ''u1'')])) = 3
   \<and> length (auditLog full_manager) = 10000
   \<and> auditLog (addAuditLogEntry full_manager (example_entry ''new''))
       = replicate 9999 (example_entry ''old'') @ [example_entry ''new'']"
proof -
  have run: "length (auditLog (calls (newConsentManager GDPR 365)
      [(example_runtime, RecordConsent ''u1'' [Logging, Analytics] True ''10.0.0.1'' ''agent''),
       (example_runtime, ProcessDataDeletion ''u1'')])) = 3"
    by (simp add: newConsentManager_def recordConsent_def processDataDeletion_def
        addAuditLogEntry_def Let_def)
  have full: "length (auditLog full_manager) = 10000"
    by (simp add: full_manager_def)
  have "newest 10000 (auditLog full_manager @ [example_entry ''new''])
        = replicate 9999 (example_entry ''old'') @ [example_entry ''new'']"
    by (simp add: newest_def full_manager_def)
  then show ?thesis
    using C7_audit_log_cap[of GDPR 365 "[]" full_manager "example_entry ''new''"] run full
    by simp
qed

lemma calculateGlobalPIIConsent_spec:
  "calculateGlobalPIIConsent ps = spec_globalStatus (map snd ps)"
  by (auto simp add: calculateGlobalPIIConsent_def spec_globalStatus_def list_ex_iff list_all_iff Let_def)

lemma consentGivenFor_entry:
  "consentGivenFor uid st p (consentGivenEntry rt cm k uid p st old ip ua cid)"
  by (simp add: consentGivenFor_def consentGivenEntry_def)

lemma recordConsent_purposes_result:
  "recordConsent_purposes rt uid st ip ua k ps (prefs, cm) = (prefs', cm') \<Longrightarrow>
     (\<forall>p. map_of (purposes prefs') p = (if p \<in> set ps then Some st else map_of (purposes prefs) p))
     \<and> prefs' = prefs\<lparr>purposes := purposes prefs'\<rparr>
     \<and> (\<exists>entries. list_all2 (consentGivenFor uid st) ps entries
            \<and> auditLog cm' = (if ps = [] then auditLog cm else newest 10000 (auditLog cm @ entries)))
     \<and> cm' = cm\<lparr>auditLog := auditLog cm'\<rparr>"
proof (induction ps arbitrary: prefs cm k)
  case Nil
  then have "prefs' = prefs" "cm' = cm" by simp_all
  then show ?case by simp
next
  case (Cons p ps)
  define old where "old = (case map_of (purposes prefs) p of Some s \<Rightarrow> s | None \<Rightarrow> Pending)"
  define prefs1 where "prefs1 = prefs\<lparr>purposes := AList.update p st (purposes prefs)\<rparr>"
  define e where "e = consentGivenEntry rt cm k uid p st old ip ua (consentId prefs1)"
  define cm1 where "cm1 = addAuditLogEntry cm e"
  have step: "recordConsent_purposes rt uid st ip ua (Suc k) ps (prefs1, cm1) = (prefs', cm')"
    using Cons.prems by (simp add: Let_def old_def prefs1_def e_def cm1_def)
  note ih = Cons.IH[OF step]
  from ih obtain entries where
    ents: "list_all2 (consentGivenFor uid st) ps entries"
    and log: "auditLog cm' = (if ps = [] then auditLog cm1 else newest 10000 (auditLog cm1 @ entries))"
    by blast
  have m: "\<forall>q. map_of (purposes prefs') q = (if q \<in> set (p # ps) then Some st else map_of (purposes prefs) q)"
    using ih by (simp add: prefs1_def update_conv')
  have pf: "prefs' = prefs\<lparr>purposes := purposes prefs'\<rparr>"
  proof -
    have "prefs' = prefs1\<lparr>purposes := purposes prefs'\<rparr>" using ih by blast
    then show ?thesis by (simp add: prefs1_def)
  qed
  have l2: "list_all2 (consentGivenFor uid st) (p # ps) (e # entries)"
    using ents by (simp add: e_def consentGivenFor_entry)
  have "auditLog cm' = newest 10000 (newest 10000 (auditLog cm @ [e]) @ entries)"
  proof (cases "ps = []")
    case True
    then have "entries = []" using ents by simp
    then show ?thesis
      using log True by (simp add: cm1_def auditLog_addAuditLogEntry newest_all length_newest)
  next
    case False
    then show ?thesis using log by (simp add: cm1_def auditLog_addAuditLogEntry)
  qed
  then have lg: "auditLog cm' = newest 10000 (auditLog cm @ (e # entries))"
    by (simp add: newest_newest_append)
  have cmf: "cm' = cm\<lparr>auditLog := auditLog cm'\<rparr>"
  proof -
    have "cm' = cm1\<lparr>auditLog := auditLog cm'\<rparr>" using ih by blast
    then show ?thesis by (simp add: cm1_def addAuditLogEntry_def Let_def)
  qed
  show ?case using m pf l2 lg cmf by (intro conjI exI[of _ "e # entries"]) simp_all
qed

lemma consentWithdrawnFor_entry:
  "consentWithdrawnFor uid p (consentWithdrawnEntry rt cm k uid p old ip ua cid)"
  by (simp add: consentWithdrawnFor_def consentWithdrawnEntry_def)

lemma withdrawConsent_purposes_result:
  "withdrawConsent_purposes rt uid ip ua k ps (prefs, cm) = (prefs', cm') \<Longrightarrow>
     (\<forall>p. map_of (purposes prefs') p = (if p \<in> set ps then Some Withdrawn else map_of (purposes prefs) p))
     \<and> prefs' = prefs\<lparr>purposes := purposes prefs'\<rparr>
     \<and> (\<exists>entries. list_all2 (consentWithdrawnFor uid) ps entries
            \<and> auditLog cm' = (if ps = [] then auditLog cm else newest 10000 (auditLog cm @ entries)))
     \<and> cm' = cm\<lparr>auditLog := auditLog cm'\<rparr>"
proof (induction ps arbitrary: prefs cm k)
  case Nil
  then have "prefs' = prefs" "cm' = cm" by simp_all
  then show ?case by simp
next
  case (Cons p ps)
  define prefs1 where "prefs1 = prefs\<lparr>purposes := AList.update p Withdrawn (purposes prefs)\<rparr>"
  define e where "e = consentWithdrawnEntry rt cm k uid p (map_of (purposes prefs) p) ip ua (consentId prefs1)"
  define cm1 where "cm1 = addAuditLogEntry cm e"
  have step: "withdrawConsent_purposes rt uid ip ua (Suc k) ps (prefs1, cm1) = (prefs', cm')"
    using Cons.prems by (simp add: Let_def prefs1_def e_def cm1_def)
  note ih = Cons.IH[OF step]
  from ih obtain entries where
    ents: "list_all2 (consentWithdrawnFor uid) ps entries"
    and log: "auditLog cm' = (if ps = [] then auditLog cm1 else newest 10000 (auditLog cm1 @ entries))"
    by blast
  have m: "\<forall>q. map_of (purposes prefs') q = (if q \<in> set (p # ps) then Some Withdrawn else map_of (purposes prefs) q)"
    using ih by (simp add: prefs1_def update_conv')
  have pf: "prefs' = prefs\<lparr>purposes := purposes prefs'\<rparr>"
  proof -
    have "prefs' = prefs1\<lparr>purposes := purposes prefs'\<rparr>" using ih by blast
    then show ?thesis by (simp add: prefs1_def)
  qed
  have l2: "list_all2 (consentWithdrawnFor uid) (p # ps) (e # entries)"
    using ents by (simp add: e_def consentWithdrawnFor_entry)
  have "auditLog cm' = newest 10000 (newest 10000 (auditLog cm @ [e]) @ entries)"
  proof (cases "ps = []")
    case True
    then have "entries = []" using ents by simp
    then show ?thesis
      using log True by (simp add: cm1_def auditLog_addAuditLogEntry newest_all length_newest)
  next
    case False
    then show ?thesis using log by (simp add: cm1_def auditLog_addAuditLogEntry)
  qed
  then have lg: "auditLog cm' = newest 10000 (auditLog cm @ (e # entries))"
    by (simp add: newest_newest_append)
  have cmf: "cm' = cm\<lparr>auditLog := auditLog cm'\<rparr>"
  proof -
    have "cm' = cm1\<lparr>auditLog := auditLog cm'\<rparr>" using ih by blast
    then show ?thesis by (simp add: cm1_def addAuditLogEntry_def Let_def)
  qed
  show ?case using m pf l2 lg cmf by (intro conjI exI[of _ "e # entries"]) simp_all
qed

text \<open>
  Claim C8. After \<open>recordConsent\<close> or \<open>withdrawConsent\<close> has updated a user's
  per-purpose statuses, the derived global status is: withdrawn if any purpose is
  withdrawn; otherwise denied if any is denied; otherwise granted if every purpose is
  granted; otherwise pending. Each purpose of the call gets the new status and every
  other purpose keeps its own; one audit entry per purpose of the call is appended, in
  the order of the call (the log then keeps its newest 10,000 entries); and the stored
  preferences of the user are the returned ones.
\<close>

theorem C8_global_status_and_audit:
  "(recordConsent rt cm uid ps given ip ua = (prefs', cm') \<longrightarrow>
      piiProcessing prefs' = spec_globalStatus (map snd (purposes prefs'))
      \<and> (\<forall>p. map_of (purposes prefs') p =
             (if p \<in> set ps then Some (if given then Granted else Denied)
              else map_of (purposesOf cm uid) p))
      \<and> (\<exists>entries. list_all2 (consentGivenFor uid (if given then Granted else Denied)) ps entries
             \<and> auditLog cm' = (if ps = [] then auditLog cm else newest 10000 (auditLog cm @ entries)))
      \<and> map_of (preferences cm') uid = Some prefs')
   \<and> (withdrawConsent rt cm uid ps ip ua = (Some prefs', cm') \<longrightarrow>
      piiProcessing prefs' = spec_globalStatus (map snd (purposes prefs'))
      \<and> (\<forall>p. map_of (purposes prefs') p =
             (if p \<in> set ps then Some Withdrawn else map_of (purposesOf cm uid) p))
      \<and> (\<exists>entries. list_all2 (consentWithdrawnFor uid) ps entries
             \<and> auditLog cm' = (if ps = [] then auditLog cm else newest 10000 (auditLog cm @ entries)))
      \<and> map_of (preferences cm') uid = Some prefs')"
proof (intro conjI impI)
  assume r: "recordConsent rt cm uid ps given ip ua = (prefs', cm')"
  define st where "st = (if given then Granted else Denied)"
  define prefs0 where "prefs0 = (case map_of (preferences cm) uid of
                     Some p \<Rightarrow> p
                   | None \<Rightarrow>
                       \<lparr> consentId = generateConsentId rt 0, userId = uid, purposes = [],
                         piiProcessing = Pending,
                         dataRetentionHours = 24 * consentExpiryDays cm,
                         consentTimestamp = dateNow rt, lastUpdated = dateNow rt,
                         ipAddress = ip, userAgent = ua \<rparr>)"
  obtain prefs1 cm1 where loop: "recordConsent_purposes rt uid st ip ua 1 ps (prefs0, cm) = (prefs1, cm1)"
    by (cases "recordConsent_purposes rt uid st ip ua 1 ps (prefs0, cm)") blast
  have p': "prefs' = prefs1\<lparr> piiProcessing := calculateGlobalPIIConsent (purposes prefs1),
                         lastUpdated := dateNow rt, ipAddress := ip, userAgent := ua \<rparr>"
    and c': "cm' = cm1\<lparr>preferences := AList.update uid prefs' (preferences cm1)\<rparr>"
    using r loop by (auto simp add: recordConsent_def Let_def st_def prefs0_def)
  have old: "purposes prefs0 = purposesOf cm uid"
    by (simp add: prefs0_def purposesOf_def split: option.splits)
  note res = recordConsent_purposes_result[OF loop]
  show "piiProcessing prefs' = spec_globalStatus (map snd (purposes prefs'))"
    by (simp add: p' calculateGlobalPIIConsent_spec)
  show "\<forall>p. map_of (purposes prefs') p =
             (if p \<in> set ps then Some (if given then Granted else Denied)
              else map_of (purposesOf cm uid) p)"
    using res old by (simp add: p' st_def)
  show "\<exists>entries. list_all2 (consentGivenFor uid (if given then Granted else Denied)) ps entries
             \<and> auditLog cm' = (if ps = [] then auditLog cm else newest 10000 (auditLog cm @ entries))"
    using res by (simp add: c' st_def)
  show "map_of (preferences cm') uid = Some prefs'"
    by (simp add: c' update_conv')
next
  assume w: "withdrawConsent rt cm uid ps ip ua = (Some prefs', cm')"
  then obtain prefs0 where p0: "map_of (preferences cm) uid = Some prefs0"
    by (cases "map_of (preferences cm) uid") (simp_all add: withdrawConsent_def)
  obtain prefs1 cm1 where loop: "withdrawConsent_purposes rt uid ip ua 0 ps (prefs0, cm) = (prefs1, cm1)"
    by (cases "withdrawConsent_purposes rt uid ip ua 0 ps (prefs0, cm)") blast
  have p': "prefs' = prefs1\<lparr> piiProcessing := calculateGlobalPIIConsent (purposes prefs1),
                         lastUpdated := dateNow rt \<rparr>"
    and c': "cm' = cm1\<lparr>preferences := AList.update uid prefs' (preferences cm1)\<rparr>"
    using w loop p0 by (auto simp add: withdrawConsent_def Let_def)
  have old: "purposes prefs0 = purposesOf cm uid"
    by (simp add: p0 purposesOf_def)
  note res = withdrawConsent_purposes_result[OF loop]
  show "piiProcessing prefs' = spec_globalStatus (map snd (purposes prefs'))"
    by (simp add: p' calculateGlobalPIIConsent_spec)
  show "\<forall>p. map_of (purposes prefs') p =
             (if p \<in> set ps then Some Withdrawn else map_of (purposesOf cm uid) p)"
    using res old by (simp add: p')
  show "\<exists>entries. list_all2 (consentWithdrawnFor uid) ps entries
             \<and> auditLog cm' = (if ps = [] then auditLog cm else newest 10000 (auditLog cm @ entries))"
    using res by (simp add: c')
  show "map_of (preferences cm') uid = Some prefs'"
    by (simp add: c' update_conv')
qed

theorem C8_global_status_and_audit_witness:
  "piiProcessing (fst (recordConsent example_runtime example_manager ''u1''
        [Logging, Analytics] True ''10.0.0.1'' ''agent'')) = Granted
   \<and> purposes (fst (recordConsent example_runtime example_manager ''u1''
        [Logging, Analytics] True ''10.0.0.1'' ''agent''))
       = [(Logging, Granted), (Analytics, Granted)]
   \<and> spec_globalStatus [Granted, Granted] = Granted
   \<and> length (auditLog (snd (recordConsent example_runtime example_manager ''u1''
        [Logging, Analytics] True ''10.0.0.1'' ''agent''))) = 2
   \<and> map piiProcessing (map snd (preferences (snd (withdrawConsent example_runtime
        (snd (recordConsent example_runtime example_manager ''u1''
           [Logging, Analytics] True ''10.0.0.1'' ''agent''))
        ''u1'' [Analytics] ''10.0.0.1'' ''agent'')))) = [Withdrawn]"
proof -
  define r where "r = recordConsent example_runtime example_manager ''u1''
        [Logging, Analytics] True ''10.0.0.1'' ''agent''"
  have pu: "purposes (fst r) = [(Logging, Granted), (Analytics, Granted)]"
    by (simp add: r_def recordConsent_def example_manager_def newConsentManager_def Let_def
        addAuditLogEntry_def)
  have len: "length (auditLog (snd r)) = 2"
    by (simp add: r_def recordConsent_def example_manager_def newConsentManager_def Let_def
        addAuditLogEntry_def)
  have sp: "spec_globalStatus [Granted, Granted] = Granted"
    by (simp add: spec_globalStatus_def)
  have wd: "map piiProcessing (map snd (preferences (snd (withdrawConsent example_runtime
        (snd r) ''u1'' [Analytics] ''10.0.0.1'' ''agent'')))) = [Withdrawn]"
    by (simp add: r_def recordConsent_def withdrawConsent_def example_manager_def
        newConsentManager_def Let_def addAuditLogEntry_def calculateGlobalPIIConsent_def)
  have "piiProcessing (fst r) = spec_globalStatus (map snd (purposes (fst r)))"
    using C8_global_status_and_audit[of example_runtime example_manager "''u1''"
        "[Logging, Analytics]" True "''10.0.0.1''" "''agent''" "fst r" "snd r"]
    by (simp add: r_def)
  then show ?thesis
    using pu len sp wd unfolding r_def by simp
qed

text \<open>
  Claim C10. For a user without preferences, \<open>recordConsent\<close> with an empty list of
  purposes creates a record whose map of purposes is empty and whose derived global
  status is granted (the check that all purposes are granted is vacuously true), whether
  consent was given or not; no audit entry is appended.
\<close>

theorem C10_empty_purposes_granted:
  assumes "map_of (preferences cm) uid = None"
    and "recordConsent rt cm uid [] given ip ua = (prefs', cm')"
  shows "purposes prefs' = [] \<and> piiProcessing prefs' = Granted
         \<and> map_of (preferences cm') uid = Some prefs' \<and> auditLog cm' = auditLog cm"
  using assms
  by (auto simp add: recordConsent_def Let_def calculateGlobalPIIConsent_def update_conv')

theorem C10_empty_purposes_granted_witness:
  "map_of (preferences example_manager) ''u1'' = None
   \<and> purposes (fst (recordConsent example_runtime example_manager ''u1'' [] False
         ''10.0.0.1'' ''agent'')) = []
   \<and> piiProcessing (fst (recordConsent example_runtime example_manager ''u1'' [] False
         ''10.0.0.1'' ''agent'')) = Granted
   \<and> map fst (preferences (snd (recordConsent example_runtime example_manager ''u1'' [] False
         ''10.0.0.1'' ''agent''))) = [''u1'']"
proof -
  have none: "map_of (preferences example_manager) ''u1'' = None"
    by (simp add: example_manager_def newConsentManager_def)
  have stored: "map fst (preferences (snd (recordConsent example_runtime example_manager ''u1'' []
         False ''10.0.0.1'' ''agent''))) = [''u1'']"
    by (simp add: recordConsent_def example_manager_def newConsentManager_def Let_def)
  show ?thesis
    using C10_empty_purposes_granted[OF none, of example_runtime False "''10.0.0.1''" "''agent''"
        "fst (recordConsent example_runtime example_manager ''u1'' [] False ''10.0.0.1'' ''agent'')"
        "snd (recordConsent example_runtime example_manager ''u1'' [] False ''10.0.0.1'' ''agent'')"]
      none stored
    by simp
qed

section \<open>PIIDetector: results\<close>

lemma set_insert_by [simp]: "set (insert_by cmp x ys) = insert x (set ys)"
  by (induction ys) auto

lemma set_array_sort [simp]: "set (array_sort cmp xs) = set xs"
  by (induction xs) (simp_all add: array_sort_def)

lemma length_insert_by [simp]: "length (insert_by cmp x ys) = Suc (length ys)"
  by (induction ys) auto

lemma length_array_sort [simp]: "length (array_sort cmp xs) = length xs"
  by (induction xs) (simp_all add: array_sort_def)

lemma array_sort_Cons: "array_sort cmp (x # xs) = insert_by cmp x (array_sort cmp xs)"
  by (simp add: array_sort_def)

lemma array_sort_Nil [simp]: "array_sort cmp [] = []"
  by (simp add: array_sort_def)

lemma array_sort_single [simp]: "array_sort cmp [x] = [x]"
  by (simp add: array_sort_def)

lemma pairwise_insert_by:
  assumes "sorted_wrt R ys" and "\<forall>y \<in> set ys. R x y \<and> R y x"
  shows "sorted_wrt R (insert_by cmp x ys)"
  using assms by (induction ys) auto

lemma pairwise_array_sort:
  assumes "sorted_wrt R xs" and sym: "\<And>a b. R a b \<Longrightarrow> R b a"
  shows "sorted_wrt R (array_sort cmp xs)"
  using assms(1)
proof (induction xs)
  case Nil
  show ?case by simp
next
  case (Cons x xs)
  then have "sorted_wrt R (array_sort cmp xs)" by simp
  moreover have "\<forall>y \<in> set (array_sort cmp xs). R x y \<and> R y x"
    using Cons.prems sym by auto
  ultimately show ?case
    unfolding array_sort_Cons by (rule pairwise_insert_by)
qed

lemma ordered_insert_by:
  assumes total: "\<And>a b. cmp a b \<le> 0 \<or> cmp b a \<le> 0"
    and trans: "\<And>a b c. cmp a b \<le> 0 \<Longrightarrow> cmp b c \<le> 0 \<Longrightarrow> cmp a c \<le> 0"
    and "sorted_wrt (\<lambda>a b. cmp a b \<le> 0) ys"
  shows "sorted_wrt (\<lambda>a b. cmp a b \<le> 0) (insert_by cmp x ys)"
  using assms(3)
proof (induction ys)
  case Nil
  show ?case by simp
next
  case (Cons y ys)
  show ?case
  proof (cases "cmp x y \<le> 0")
    case True
    then have "\<forall>z \<in> set ys. cmp x z \<le> 0"
      using Cons.prems trans by auto
    then show ?thesis using True Cons.prems by simp
  next
    case False
    then have "cmp y x \<le> 0" using total by blast
    then show ?thesis using False Cons by auto
  qed
qed

lemma ordered_array_sort:
  assumes total: "\<And>a b. cmp a b \<le> 0 \<or> cmp b a \<le> 0"
    and trans: "\<And>a b c. cmp a b \<le> 0 \<Longrightarrow> cmp b c \<le> 0 \<Longrightarrow> cmp a c \<le> 0"
  shows "sorted_wrt (\<lambda>a b. cmp a b \<le> 0) (array_sort cmp xs)"
proof (induction xs)
  case Nil
  show ?case by simp
next
  case (Cons x xs)
  show ?case unfolding array_sort_Cons
    by (rule ordered_insert_by[OF total trans Cons.IH])
qed





lemma sorted_by_start: "sorted (map startIndex (array_sort byStart xs))"
proof -
  have "sorted_wrt (\<lambda>a b. byStart a b \<le> 0) (array_sort byStart xs)"
    by (rule ordered_array_sort) (auto simp add: byStart_def)
  then have "sorted_wrt (\<lambda>a b. startIndex a \<le> startIndex b) (array_sort byStart xs)"
    by (simp add: byStart_def)
  then show ?thesis by (simp add: sorted_map)
qed

lemma overlaps_sym: "overlaps a b \<Longrightarrow> overlaps b a"
  by (auto simp add: overlaps_def)



























lemmas example_defs = ssn_literal_def phone_literal_def digits_literal_def rejected_literal_def
  example_detector_def literalExec_def detection_def

lemma example_ssn_matches:
  "findPatternMatches ssn_literal ''ssn 123-45-6789'' =
     Some (Inr [detection SSN ''123-45-6789'' 4 15 0.8 ''ssn_literal''])"
  by (simp add: findPatternMatches_def findPatternMatches_loop.simps example_defs runValidator_def
      detectionOf_def validateContext_def substring_def toLowerCase_def toLowerChar_def
      applyTypeSpecificValidation_def validateSSN_def digitsOf_def isDigit_def Let_def)

lemma example_rejected_matches:
  "findPatternMatches rejected_literal ''ssn 123-45-6789'' = Some (Inr [])"
  by (simp add: findPatternMatches_def findPatternMatches_loop.simps example_defs runValidator_def)

lemma example_phone_matches:
  "findPatternMatches phone_literal ''ssn 123-45-6789'' =
     Some (Inr [detection Phone ''45-6789'' 8 15 0.51 ''phone_literal''])"
  by (simp add: findPatternMatches_def findPatternMatches_loop.simps example_defs runValidator_def
      detectionOf_def applyTypeSpecificValidation_def validatePhone_def digitsOf_def isDigit_def
      Let_def)

lemma example_digits_matches:
  "findPatternMatches digits_literal ''ssn 123-45-6789'' =
     Some (Inr [detection Custom ''123'' 4 7 0.95 ''digits_literal''])"
  by (simp add: findPatternMatches_def findPatternMatches_loop.simps example_defs runValidator_def
      detectionOf_def applyTypeSpecificValidation_def Let_def)

lemma example_collect:
  "collectDetections example_detector ''ssn 123-45-6789'' 0.5 =
     Some (Inr [detection SSN ''123-45-6789'' 4 15 0.8 ''ssn_literal'',
                detection Phone ''45-6789'' 8 15 0.51 ''phone_literal'',
                detection Custom ''123'' 4 7 0.95 ''digits_literal''])"
  by (simp add: collectDetections_def example_detector_def example_ssn_matches
      example_phone_matches example_digits_matches example_rejected_matches detection_def)

lemma example_scan:
  "scanText example_detector example_runtime ''ssn 123-45-6789'' 0.5 =
     Some (Inr [detection Custom ''123'' 4 7 0.95 ''digits_literal'',
                detection Phone ''45-6789'' 8 15 0.51 ''phone_literal''],
           updatePerformanceMetrics example_detector 1)"
  unfolding scanText_def example_collect
  by (simp add: removeOverlappingDetections_def array_sort_def
      byConfidenceThenStart_def byStart_def overlaps_def detection_def Let_def
      example_runtime_def)




section \<open>DataSanitizer: results\<close>

lemma sameHashes_refl [simp]: "sameHashes a a"
  by (simp add: sameHashes_def)

lemma sameHashes_trans: "sameHashes a b \<Longrightarrow> sameHashes b c \<Longrightarrow> sameHashes a c"
  by (simp add: sameHashes_def)

lemma config_hashValue [simp]: "config (snd (hashValue san v)) = config san"
  by (simp add: hashValue_def Let_def split: option.splits)

lemma hashValue_again:
  "fst (hashValue (snd (hashValue san v)) w) = fst (hashValue san w)"
  by (simp add: hashValue_def Let_def update_conv' split: option.splits)

lemma sameHashes_hashValue: "sameHashes san (snd (hashValue san v))"
  by (simp add: sameHashes_def hashValue_again)

lemma sameHashes_auditTrail: "sameHashes san (san\<lparr>auditTrail := x\<rparr>)"
  by (simp add: sameHashes_def hashValue_def Let_def split: option.splits)

lemma sameHashes_apply:
  "sameHashes san (snd (applySanitizationStrategy san v t s))"
proof (cases s)
  case Hash
  have "snd (applySanitizationStrategy san v t Hash) = snd (hashValue san v)"
    by (simp add: applySanitizationStrategy_def split: prod.splits)
  then show ?thesis using Hash sameHashes_hashValue[of san v] by simp
qed (simp_all add: applySanitizationStrategy_def)

lemma sameHashes_apply_fst:
  assumes "sameHashes a b"
  shows "fst (applySanitizationStrategy a v t s) = fst (applySanitizationStrategy b v t s)"
proof (cases s)
  case Hash
  have "fst (applySanitizationStrategy a v t Hash) = Inr (fst (hashValue a v))"
    "fst (applySanitizationStrategy b v t Hash) = Inr (fst (hashValue b v))"
    by (simp_all add: applySanitizationStrategy_def split: prod.splits)
  then show ?thesis using Hash assms by (simp add: sameHashes_def)
next
  case Mask
  then show ?thesis using assms by (simp add: applySanitizationStrategy_def sameHashes_def)
next
  case Remove
  then show ?thesis by (simp add: applySanitizationStrategy_def)
next
  case Partial
  then show ?thesis using assms by (simp add: applySanitizationStrategy_def sameHashes_def)
qed

lemma sameHashes_strategy:
  assumes "sameHashes a b"
  shows "getStrategyForPIIType a t = getStrategyForPIIType b t"
proof -
  have "config a = config b" using assms by (simp add: sameHashes_def)
  then show ?thesis by (simp add: getStrategyForPIIType_def split: option.splits)
qed

lemma sameHashes_replacementOf:
  "sameHashes a b \<Longrightarrow> replacementOf a d = replacementOf b d"
  by (simp add: replacementOf_def sameHashes_apply_fst[of a b] sameHashes_strategy[of a b])

lemma splicedTo_snoc:
  "splicedTo san text pos (ds @ [d]) p =
     splicedTo san text pos ds (startIndex d) @ replacementText san d
     @ take (nat (p - endIndex d)) (drop (nat (endIndex d)) text)"
  by (induction ds arbitrary: pos) simp_all


lemma sanitizeLoop_text:
  assumes "sanitizeLoop rt xs st san = (Inr st', san')"
    and "sameHashes san0 san"
    and "sorted_wrt (\<lambda>a b. endIndex b \<le> startIndex a) xs"
    and "\<forall>d \<in> set xs. 0 \<le> startIndex d \<and> startIndex d \<le> endIndex d \<and> endIndex d \<le> p"
    and "p \<le> int (length text)" and "0 \<le> p"
    and "runningText st = take (nat p) text @ suffix"
  shows "runningText st' = splicedTo san0 text 0 (rev xs) p @ suffix
       \<and> (\<forall>d \<in> set xs. \<exists>r. replacementOf san0 d = Inr r)
       \<and> sameHashes san0 san'"
  using assms
proof (induction xs arbitrary: st san p suffix)
  case Nil
  then show ?case by simp
next
  case (Cons d rest)
  define strat where "strat = getStrategyForPIIType san (ptype d)"
  obtain res san1 where ap: "applySanitizationStrategy san (matched d) (ptype d) strat = (res, san1)"
    by (cases "applySanitizationStrategy san (matched d) (ptype d) strat")
  obtain r where r: "res = Inr r"
    using Cons.prems(1) ap by (cases res) (simp_all add: strat_def Let_def)
  obtain h san2 where hv: "hashValue san1 (matched d) = (h, san2)"
    by (cases "hashValue san1 (matched d)")
  define action where "action = \<lparr> piiType = ptype d, strategy = strat,
                             originalValueHash = h, sanitizedValue = r,
                             positionStart = startIndex d,
                             positionEnd = endIndex d,
                             actionTimestamp = dateNow rt \<rparr>"
  define san3 where "san3 = san2\<lparr>auditTrail := auditTrail san2 @ [action]\<rparr>"
  define st1 where "st1 = \<lparr> runningText = substring (runningText st) 0 (nat (startIndex d)) @ r
                     @ substring (runningText st) (nat (endIndex d)) (length (runningText st)),
                     runningActions = runningActions st @ [action],
                     runningDetections = runningDetections st
                       @ [d\<lparr>endIndex := startIndex d + int (length r)\<rparr>] \<rparr>"
  have step: "sanitizeLoop rt rest st1 san3 = (Inr st', san')"
    using Cons.prems(1) ap r hv
    by (simp add: strat_def[symmetric] Let_def action_def san3_def st1_def)
  have sh1: "sameHashes san san1"
    using sameHashes_apply[of san "matched d" "ptype d" strat] ap by simp
  have sh2: "sameHashes san1 san2"
    using sameHashes_hashValue[of san1 "matched d"] hv by simp
  have sh3: "sameHashes san2 san3"
    unfolding san3_def by (rule sameHashes_auditTrail)
  have sh: "sameHashes san0 san3"
    using Cons.prems(2) sh1 sh2 sh3 sameHashes_trans by blast
  have rep: "replacementOf san0 d = Inr r"
  proof -
    have "replacementOf san0 d = replacementOf san d"
      by (rule sameHashes_replacementOf[OF Cons.prems(2)])
    then show ?thesis using ap r by (simp add: replacementOf_def strat_def)
  qed
  have bounds: "0 \<le> startIndex d" "startIndex d \<le> endIndex d" "endIndex d \<le> p"
    using Cons.prems(4) by simp_all
  have len: "nat p \<le> length text" using Cons.prems(5,6) by linarith
  have sp: "nat (startIndex d) \<le> nat p" and ep: "nat (endIndex d) \<le> nat p"
    using bounds by simp_all
  have before: "substring (runningText st) 0 (nat (startIndex d)) = take (nat (startIndex d)) text"
  proof -
    have "min (nat (startIndex d)) (length (runningText st)) = nat (startIndex d)"
      using sp len Cons.prems(7) by simp
    then have "substring (runningText st) 0 (nat (startIndex d))
        = take (nat (startIndex d)) (runningText st)"
      by (simp add: substring_def Let_def)
    also have "\<dots> = take (nat (startIndex d)) text"
      using sp len Cons.prems(7) by simp
    finally show ?thesis .
  qed
  have after: "substring (runningText st) (nat (endIndex d)) (length (runningText st))
      = take (nat (p - endIndex d)) (drop (nat (endIndex d)) text) @ suffix"
  proof -
    have d1: "drop (nat (endIndex d)) (take (nat p) text @ suffix)
        = take (nat p - nat (endIndex d)) (drop (nat (endIndex d)) text) @ suffix"
      using ep len by (simp add: drop_take)
    have d2: "nat p - nat (endIndex d) = nat (p - endIndex d)" using bounds by simp
    have "min (nat (endIndex d)) (length (runningText st)) = nat (endIndex d)"
      using ep len Cons.prems(7) by simp
    then have "substring (runningText st) (nat (endIndex d)) (length (runningText st))
        = drop (nat (endIndex d)) (runningText st)"
      by (simp add: substring_def Let_def)
    then show ?thesis using d1 d2 Cons.prems(7) by simp
  qed
  have txt1: "runningText st1 = take (nat (startIndex d)) text
      @ (r @ take (nat (p - endIndex d)) (drop (nat (endIndex d)) text) @ suffix)"
    by (simp add: st1_def before after)
  have sorted_rest: "sorted_wrt (\<lambda>a b. endIndex b \<le> startIndex a) rest"
    using Cons.prems(3) by simp
  have range_rest: "\<forall>e \<in> set rest. 0 \<le> startIndex e \<and> startIndex e \<le> endIndex e
      \<and> endIndex e \<le> startIndex d"
    using Cons.prems(3,4) by auto
  have p1: "startIndex d \<le> int (length text)" using bounds Cons.prems(5) by simp
  note ih = Cons.IH[OF step sh sorted_rest range_rest p1 bounds(1) txt1]
  have "runningText st' = splicedTo san0 text 0 (rev (d # rest)) p @ suffix"
    using ih rep by (simp add: splicedTo_snoc replacementText_def)
  then show ?case using ih rep by auto
qed

lemma distinct_map_insert_by:
  "distinct (map f (insert_by cmp x ys)) = (f x \<notin> f ` set ys \<and> distinct (map f ys))"
  by (induction ys) auto

lemma distinct_map_array_sort:
  "distinct (map f (array_sort cmp xs)) = distinct (map f xs)"
  by (induction xs) (simp_all add: array_sort_Cons distinct_map_insert_by)

lemma sorted_wrt_both:
  "sorted_wrt P xs \<Longrightarrow> sorted_wrt Q xs \<Longrightarrow> sorted_wrt (\<lambda>a b. P a b \<and> Q a b) xs"
  by (induction xs) auto

lemma sorted_descending: "sorted_wrt (\<lambda>a b. startIndex b \<le> startIndex a) (array_sort byStartDescending xs)"
proof -
  have "sorted_wrt (\<lambda>a b. byStartDescending a b \<le> 0) (array_sort byStartDescending xs)"
    by (rule ordered_array_sort) (auto simp add: byStartDescending_def)
  then show ?thesis by (simp add: byStartDescending_def)
qed

lemma descending_order:
  assumes "\<forall>d \<in> set ds. inRange text d" and "sorted_wrt (\<lambda>a b. \<not> overlaps a b) ds"
  shows "sorted_wrt (\<lambda>a b. endIndex b \<le> startIndex a) (array_sort byStartDescending ds)"
proof -
  let ?desc = "array_sort byStartDescending ds"
  have "sorted_wrt (\<lambda>a b. \<not> overlaps a b) ?desc"
    using assms(2) by (rule pairwise_array_sort) (auto dest: overlaps_sym)
  then have "sorted_wrt (\<lambda>a b. startIndex b \<le> startIndex a \<and> \<not> overlaps a b) ?desc"
    using sorted_descending by (intro sorted_wrt_both)
  then show ?thesis
  proof (rule sorted_wrt_mono_rel[rotated])
    fix a b
    assume "a \<in> set ?desc" "b \<in> set ?desc"
      and "startIndex b \<le> startIndex a \<and> \<not> overlaps a b"
    then show "endIndex b \<le> startIndex a"
      using assms(1) by (auto simp add: overlaps_def inRange_def)
  qed
qed


lemma distinct_keys:
  "sorted_wrt (\<lambda>a b. f a \<noteq> f b) xs \<Longrightarrow> distinct (map f xs)"
  by (induction xs) auto

lemma distinct_starts:
  assumes "\<forall>d \<in> set ds. inRange text d" and "sorted_wrt (\<lambda>a b. \<not> overlaps a b) ds"
  shows "distinct (map startIndex ds)"
proof (rule distinct_keys, rule sorted_wrt_mono_rel[rotated], rule assms(2))
  fix a b
  assume "a \<in> set ds" "b \<in> set ds" "\<not> overlaps a b"
  then show "startIndex a \<noteq> startIndex b"
    using assms(1) by (auto simp add: overlaps_def inRange_def)
qed

lemma ascending_order:
  assumes "\<forall>d \<in> set ds. inRange text d" and "sorted_wrt (\<lambda>a b. \<not> overlaps a b) ds"
  shows "rev (array_sort byStartDescending ds) = array_sort byStart ds"
proof (rule map_sorted_distinct_set_unique[where f = startIndex])
  have d: "distinct (map startIndex ds)" by (rule distinct_starts[OF assms])
  then show "inj_on startIndex (set (rev (array_sort byStartDescending ds)) \<union> set (array_sort byStart ds))"
    by (simp add: distinct_map)
  have "sorted_wrt (\<lambda>a b. startIndex a \<le> startIndex b) (rev (array_sort byStartDescending ds))"
    using sorted_descending[of ds] by (simp add: sorted_wrt_rev)
  then show "sorted (map startIndex (rev (array_sort byStartDescending ds)))"
    by (simp add: sorted_map)
  show "distinct (map startIndex (rev (array_sort byStartDescending ds)))"
    using d by (simp add: rev_map[symmetric] distinct_map_array_sort)
  show "sorted (map startIndex (array_sort byStart ds))" by (rule sorted_by_start)
  show "distinct (map startIndex (array_sort byStart ds))"
    using d by (simp add: distinct_map_array_sort)
  show "set (rev (array_sort byStartDescending ds)) = set (array_sort byStart ds)" by simp
qed

lemma sanitizeText_Inr:
  assumes "sanitizeText san rt text ds = (Inr result, san')" and "ds \<noteq> []"
  obtains st where
    "sanitizeLoop rt (array_sort byStartDescending ds)
       \<lparr> runningText = text, runningActions = [], runningDetections = [] \<rparr> san = (Inr st, san')"
    and "result = \<lparr> originalText = text, sanitizedText = runningText st,
                      sanitizedDetections = runningDetections st,
                      actions = runningActions st, wasModified = True \<rparr>"
proof -
  obtain r s where l: "sanitizeLoop rt (array_sort byStartDescending ds)
       \<lparr> runningText = text, runningActions = [], runningDetections = [] \<rparr> san = (r, s)"
    by (cases "sanitizeLoop rt (array_sort byStartDescending ds)
       \<lparr> runningText = text, runningActions = [], runningDetections = [] \<rparr> san")
  show ?thesis
  proof (cases r)
    case (Inl e)
    then show ?thesis using assms l by (simp add: sanitizeText_def Let_def)
  next
    case (Inr st)
    then show ?thesis using assms l that[of st] by (auto simp add: sanitizeText_def Let_def)
  qed
qed

text \<open>
  Where \<open>sanitizeText\<close> returns a result for a non-empty list of detections that lie
  within the text and do not overlap, the result is marked as modified and its text is
  the original text with every detected span replaced by the value that the strategy of
  its type gives, all other characters in place; the detections are processed by start
  index descending, which is the reverse of the order by start index.
\<close>

lemma sanitizeText_splices:
  assumes "ds \<noteq> []"
    and "\<forall>d \<in> set ds. inRange text d"
    and "sorted_wrt (\<lambda>a b. \<not> overlaps a b) ds"
    and "sanitizeText san rt text ds = (Inr result, san')"
  shows "wasModified result \<and> originalText result = text
     \<and> sanitizedText result = splicedTo san text 0 (array_sort byStart ds) (int (length text))
     \<and> sorted (map startIndex (array_sort byStart ds))
     \<and> array_sort byStart ds = rev (array_sort byStartDescending ds)
     \<and> (\<forall>d \<in> set ds. \<exists>r. replacementOf san d = Inr r)"
proof -
  let ?desc = "array_sort byStartDescending ds"
  from sanitizeText_Inr[OF assms(4,1)] obtain st where
    loop: "sanitizeLoop rt ?desc
       \<lparr> runningText = text, runningActions = [], runningDetections = [] \<rparr> san = (Inr st, san')"
    and res: "result = \<lparr> originalText = text, sanitizedText = runningText st,
                      sanitizedDetections = runningDetections st,
                      actions = runningActions st, wasModified = True \<rparr>"
    by blast
  have order: "sorted_wrt (\<lambda>a b. endIndex b \<le> startIndex a) ?desc"
    by (rule descending_order[OF assms(2,3)])
  have range: "\<forall>d \<in> set ?desc. 0 \<le> startIndex d \<and> startIndex d \<le> endIndex d
      \<and> endIndex d \<le> int (length text)"
    using assms(2) by (auto simp add: inRange_def)
  have start: "runningText \<lparr> runningText = text, runningActions = [], runningDetections = [] \<rparr>
      = take (nat (int (length text))) text @ []"
    by simp
  have "runningText st = splicedTo san text 0 (rev ?desc) (int (length text)) @ []
       \<and> (\<forall>d \<in> set ?desc. \<exists>r. replacementOf san d = Inr r)
       \<and> sameHashes san san'"
    by (rule sanitizeLoop_text[OF loop sameHashes_refl order range _ _ start]) simp_all
  then show ?thesis
    using res ascending_order[OF assms(2,3)] sorted_by_start[of ds] by simp
qed

text \<open>
  Claim C2. \<open>sanitizeText\<close> does not return a result for every non-empty list of
  non-overlapping detections within the text. A detection of type e-mail whose value
  starts with the at sign has an empty local part; the partial strategy, the default for
  e-mail addresses, then repeats the mask character \<open>local.length - 1 = -1\<close> times, and
  \<open>repeat\<close> throws a \<open>RangeError\<close>. So for the text \<open>Data: @example.com\<close> and the
  single detection of \<open>@example.com\<close> at offsets 6 to 18, the sanitizer of
  \<open>new DataSanitizer()\<close> throws instead of returning a modified text.
\<close>

theorem C2_sanitizeText_throws:
  "sanitizeText (newDataSanitizer salt) rt ''Data: @example.com''
     [detection Email ''@example.com'' 6 18 0.95 ''custom_domain'']
   = (Inl (RepeatRangeError (- 1)), newDataSanitizer salt)"
  by (simp add: sanitizeText_def array_sort_def detection_def newDataSanitizer_def
      getStrategyForPIIType_def defaultTypeStrategies_def applySanitizationStrategy_def
      partialMaskValue_def repeat_def Let_def)

theorem C2_sanitizeText_throws_witness:
  "sanitizeText (newDataSanitizer ''salt'') example_runtime ''Data: @example.com''
     [detection Email ''@example.com'' 6 18 0.95 ''custom_domain'']
   = (Inl (RepeatRangeError (- 1)), newDataSanitizer ''salt'')
   \<and> inRange ''Data: @example.com'' (detection Email ''@example.com'' 6 18 0.95 ''custom_domain'')"
  using C2_sanitizeText_throws[of "''salt''" example_runtime]
  by (simp add: inRange_def detection_def)

section \<open>SecurityEngine: results\<close>

lemma consentStep_fields:
  "piiDetector (snd (consentStep rt eng options)) = piiDetector eng"
  "dataSanitizer (snd (consentStep rt eng options)) = dataSanitizer eng"
  "consentManager (snd (consentStep rt eng options)) = consentManager eng"
  "securityPolicy (snd (consentStep rt eng options)) = securityPolicy eng"
  "alerts (snd (consentStep rt eng options)) = alerts eng"
  "scanHistory (snd (consentStep rt eng options)) = scanHistory eng"
  by (simp_all add: consentStep_def updateConsentComplianceStats_def Let_def)

lemma consentStep_statistics:
  "statistics (snd (consentStep rt eng options)) =
     (statistics eng)\<lparr>
        compliantScans := compliantScans (statistics (snd (consentStep rt eng options))),
        nonCompliantScans := nonCompliantScans (statistics (snd (consentStep rt eng options)))\<rparr>"
  by (simp add: consentStep_def updateConsentComplianceStats_def Let_def)

lemma generateSecurityAlerts_fields:
  "piiDetector (generateSecurityAlerts rt eng sid ds cls uid) = piiDetector eng"
  "dataSanitizer (generateSecurityAlerts rt eng sid ds cls uid) = dataSanitizer eng"
  "consentManager (generateSecurityAlerts rt eng sid ds cls uid) = consentManager eng"
  "securityPolicy (generateSecurityAlerts rt eng sid ds cls uid) = securityPolicy eng"
  "statistics (generateSecurityAlerts rt eng sid ds cls uid) = statistics eng"
  "scanHistory (generateSecurityAlerts rt eng sid ds cls uid) = scanHistory eng"
  by (simp_all add: generateSecurityAlerts_def Let_def)

lemma scanSuccessful_completeScan:
  "scanSuccessful (fst (completeScan rt eng logEntry sid ds risk cls res))"
  by (simp add: completeScan_def Let_def)

lemma scanLogEntry_failed:
  assumes run: "scanLogEntry rt eng logEntry options = Some (r, eng', logEntry')"
    and failed: "\<not> scanSuccessful r"
  shows "logEntry' = logEntry
     \<and> scanHistory eng' = scanHistory eng
     \<and> statistics eng' = statistics (snd (consentStep rt eng options))
     \<and> consentManager eng' = consentManager eng
     \<and> securityPolicy eng' = securityPolicy eng
     \<and> (\<not> fst (consentStep rt eng options) \<and> requireExplicitConsent (securityPolicy eng)
          \<longrightarrow> eng' = snd (consentStep rt eng options))"
proof -
  obtain cv eng1 where cs: "consentStep rt eng options = (cv, eng1)"
    by (cases "consentStep rt eng options")
  have e1: "piiDetector eng1 = piiDetector eng" "dataSanitizer eng1 = dataSanitizer eng"
    "consentManager eng1 = consentManager eng" "securityPolicy eng1 = securityPolicy eng"
    "alerts eng1 = alerts eng" "scanHistory eng1 = scanHistory eng"
    using consentStep_fields[of rt eng options] cs by simp_all
  define minC where "minC = (case optMinConfidence options of
                    None \<Rightarrow> minConfidenceThreshold (securityPolicy eng1)
                  | Some c \<Rightarrow> if c = 0 then minConfidenceThreshold (securityPolicy eng1) else c)"
  show ?thesis
  proof (cases "\<not> cv \<and> requireExplicitConsent (securityPolicy eng1)")
    case True
    then have "eng' = eng1" "logEntry' = logEntry"
      using run cs by (simp_all add: scanLogEntry_def Let_def)
    then show ?thesis using e1 cs by auto
  next
    case gate: False
    show ?thesis
    proof (cases "scanText (piiDetector eng1) rt (message logEntry) minC")
      case None
      then show ?thesis using run cs gate by (simp add: scanLogEntry_def Let_def minC_def)
    next
      case (Some sr)
      obtain x det where sr: "sr = (x, det)" by (cases sr)
      show ?thesis
      proof (cases x)
        case (Inl e)
        then have "eng' = eng1\<lparr>piiDetector := det\<rparr>" "logEntry' = logEntry"
          using run cs gate Some sr by (simp_all add: scanLogEntry_def Let_def minC_def)
        then show ?thesis using e1 cs gate by auto
      next
        case (Inr found)
        define eng2 where "eng2 = eng1\<lparr>piiDetector := det\<rparr>"
        define filtered where "filtered = applySecurityPolicyFiltering (securityPolicy eng2) found"
        define risk where "risk = calculateRiskScore filtered (level logEntry)"
        define cls where "cls = classifyData (dateNow rt) filtered risk"
        define eng3 where "eng3 = generateSecurityAlerts rt eng2 (generateScanId rt) filtered cls (optUserId options)"
        have e3: "consentManager eng3 = consentManager eng" "securityPolicy eng3 = securityPolicy eng"
          "statistics eng3 = statistics eng1" "scanHistory eng3 = scanHistory eng"
          using e1 by (simp_all add: eng3_def eng2_def generateSecurityAlerts_fields)
        obtain y san where st: "autoSanitizeStep rt eng3 cv options logEntry filtered = (y, san)"
          by (cases "autoSanitizeStep rt eng3 cv options logEntry filtered")
        have unfolded: "scanLogEntry rt eng logEntry options =
            (case y of
               Inl e \<Rightarrow> Some (createFailedScanResult rt (generateScanId rt) (message logEntry)
                           [errorMessage e] (Some (engineScanTime rt)),
                          eng3\<lparr>dataSanitizer := san\<rparr>, logEntry)
             | Inr sres \<Rightarrow> Some (completeScan rt (eng3\<lparr>dataSanitizer := san\<rparr>) logEntry
                             (generateScanId rt) filtered risk cls sres))"
          using cs gate Some sr Inr st
          unfolding scanLogEntry_def Let_def minC_def[symmetric] eng2_def filtered_def risk_def
            cls_def eng3_def
          by (auto simp add: minC_def split: sum.splits)
        show ?thesis
        proof (cases y)
          case (Inl e)
          then have "eng' = eng3\<lparr>dataSanitizer := san\<rparr>" "logEntry' = logEntry"
            using run unfolded by simp_all
          then show ?thesis using e3 cs gate e1 by auto
        next
          case (Inr sres)
          then have "r = fst (completeScan rt (eng3\<lparr>dataSanitizer := san\<rparr>) logEntry
                             (generateScanId rt) filtered risk cls sres)"
            using run unfolded by (metis fst_conv option.inject sum.case(2))
          then show ?thesis using failed scanSuccessful_completeScan by blast
        qed
      qed
    qed
  qed
qed


lemma consentStep_invalid:
  assumes "optUserId options = Some uid" and "uid \<noteq> []"
    and "optSkipConsentCheck options \<noteq> Some True"
    and "\<not> isValid (verifyConsent rt (consentManager eng) uid (purposeOf options))"
  shows "consentStep rt eng options = (False, tallied eng 0 1)"
  using assms
  by (simp add: consentStep_def purposeOf_def tallied_def updateConsentComplianceStats_def Let_def)

lemma tallied_fields [simp]:
  "piiDetector (tallied eng c n) = piiDetector eng"
  "dataSanitizer (tallied eng c n) = dataSanitizer eng"
  "consentManager (tallied eng c n) = consentManager eng"
  "securityPolicy (tallied eng c n) = securityPolicy eng"
  "alerts (tallied eng c n) = alerts eng"
  "scanHistory (tallied eng c n) = scanHistory eng"
  by (simp_all add: tallied_def)

lemma failedByConsent_created:
  "failedByConsent logEntry (createFailedScanResult rt sid (message logEntry)
      [''Consent not provided or invalid''] None)"
  by (simp add: failedByConsent_def createFailedScanResult_def)

lemma autoSanitizeStep_invalid:
  "autoSanitizeStep rt eng False options logEntry ds = (Inr None, dataSanitizer eng)"
  by (simp add: autoSanitizeStep_def)

lemma tallied_zero [simp]: "tallied eng 0 0 = eng"
  by (simp add: tallied_def)

lemma consentStep_refused:
  "consentRefused rt eng options \<Longrightarrow> consentStep rt eng options = (False, tallied eng 0 1)"
  by (cases "optUserId options")
     (simp_all add: consentRefused_def consentStep_invalid)

lemma scanLogEntry_scanned:
  assumes cs: "consentStep rt eng options = (cv, eng1)"
    and gate: "cv \<or> \<not> requireExplicitConsent (securityPolicy eng)"
    and scan: "scanText (piiDetector eng) rt (message logEntry)
                 (minConfidenceOf (securityPolicy eng) options) = Some (Inr found, det)"
  shows "scanLogEntry rt eng logEntry options =
     (let eng2 = eng1\<lparr>piiDetector := det\<rparr>;
          filteredDetections = applySecurityPolicyFiltering (securityPolicy eng) found;
          risk = calculateRiskScore filteredDetections (level logEntry);
          cls = classifyData (dateNow rt) filteredDetections risk;
          eng3 = generateSecurityAlerts rt eng2 (generateScanId rt) filteredDetections cls
                   (optUserId options)
      in case autoSanitizeStep rt eng3 cv options logEntry filteredDetections of
           (Inl e, san) \<Rightarrow>
             Some (createFailedScanResult rt (generateScanId rt) (message logEntry)
                     [errorMessage e] (Some (engineScanTime rt)),
                   eng3\<lparr>dataSanitizer := san\<rparr>, logEntry)
         | (Inr sanitizationResult, san) \<Rightarrow>
             Some (completeScan rt (eng3\<lparr>dataSanitizer := san\<rparr>) logEntry (generateScanId rt)
                     filteredDetections risk cls sanitizationResult))"
proof -
  have e1: "piiDetector eng1 = piiDetector eng" "securityPolicy eng1 = securityPolicy eng"
    using consentStep_fields[of rt eng options] cs by simp_all
  show ?thesis
    using gate scan
    by (auto simp add: scanLogEntry_def cs e1 Let_def minConfidenceOf_def
        split: prod.splits sum.splits cong: option.case_cong if_cong)
qed

lemma example_engine_scan:
  "scanText (piiDetector (example_engine b 0.5 example_detector)) example_runtime
     (message (example_log ''ssn 123-45-6789''))
     (minConfidenceOf (securityPolicy (example_engine b 0.5 example_detector)) (example_options u))
   = Some (Inr [detection Custom ''123'' 4 7 0.95 ''digits_literal'',
                detection Phone ''45-6789'' 8 15 0.51 ''phone_literal''],
           updatePerformanceMetrics example_detector 1)"
proof -
  have a: "piiDetector (example_engine b 0.5 example_detector) = example_detector"
    by (simp add: example_engine_def newSecurityEngine_def)
  have b: "message (example_log ''ssn 123-45-6789'') = ''ssn 123-45-6789''"
    by (simp add: example_log_def)
  have c: "minConfidenceOf (securityPolicy (example_engine b 0.5 example_detector)) (example_options u) = 0.5"
    by (simp add: minConfidenceOf_def example_engine_def newSecurityEngine_def example_policy_def
        example_options_def)
  show ?thesis unfolding a b c by (rule example_scan)
qed

lemma example_engine_filtering:
  "applySecurityPolicyFiltering (securityPolicy (example_engine b 0.5 example_detector))
     [detection Custom ''123'' 4 7 0.95 ''digits_literal'',
      detection Phone ''45-6789'' 8 15 0.51 ''phone_literal'']
   = [detection Custom ''123'' 4 7 0.95 ''digits_literal'',
      detection Phone ''45-6789'' 8 15 0.51 ''phone_literal'']"
  by (simp add: applySecurityPolicyFiltering_def example_engine_def newSecurityEngine_def
      example_policy_def detection_def)

lemma example_sanitized:
  "\<exists>r san. sanitizeText (newDataSanitizer salt) rt ''ssn 123-45-6789''
     [detection Custom ''123'' 4 7 0.95 ''digits_literal'',
      detection Phone ''45-6789'' 8 15 0.51 ''phone_literal''] = (Inr r, san)
     \<and> sanitizedText r = ''ssn ***-**-****'' \<and> wasModified r"
  by (simp add: sanitizeText_def array_sort_def detection_def newDataSanitizer_def
      getStrategyForPIIType_def defaultTypeStrategies_def applySanitizationStrategy_def
      partialMaskValue_def maskValue_def repeat_def Let_def byStartDescending_def
      digitsOf_def isDigit_def isAlphanumeric_def substring_def case_prod_beta)

text \<open>
  Claim C3. The consent gate of \<open>scanLogEntry\<close>, for options that name a user (a user id
  that is not the empty string), do not skip the consent check, and for which
  \<open>verifyConsent\<close> reports the consent invalid. If the policy requires explicit consent,
  the call returns the failed result of the gate: not successful, no detections, risk
  score 0, sensitivity level public, the single error
  \<open>Consent not provided or invalid\<close>; the detector is not run, so the call returns even
  where a scan would not, and nothing is thrown; the engine only counts one more
  non-compliant scan and the log entry is as it was. If the policy does not require
  explicit consent, every scan of the detector that returns detections gives a
  successful result with the detections that the policy keeps and one more
  non-compliant scan in the tally; besides the tally, the invalid consent also switches
  the automatic sanitization off: the sanitizer is not called and the log entry gets no
  sanitized message.
\<close>

theorem C3_consent_gate:
  assumes "optUserId options = Some uid" and "uid \<noteq> []"
    and "optSkipConsentCheck options \<noteq> Some True"
    and "\<not> isValid (verifyConsent rt (consentManager eng) uid (purposeOf options))"
  shows "(requireExplicitConsent (securityPolicy eng) \<longrightarrow>
            (\<exists>r. scanLogEntry rt eng logEntry options = Some (r, tallied eng 0 1, logEntry)
                 \<and> failedByConsent logEntry r))
     \<and> (\<not> requireExplicitConsent (securityPolicy eng) \<longrightarrow>
          (\<forall>found det.
             scanText (piiDetector eng) rt (message logEntry)
               (minConfidenceOf (securityPolicy eng) options) = Some (Inr found, det) \<longrightarrow>
             (\<exists>r eng' logEntry'.
                scanLogEntry rt eng logEntry options = Some (r, eng', logEntry')
                \<and> scanSuccessful r
                \<and> detections r = applySecurityPolicyFiltering (securityPolicy eng) found
                \<and> nonCompliantScans (statistics eng') = nonCompliantScans (statistics eng) + 1
                \<and> compliantScans (statistics eng') = compliantScans (statistics eng)
                \<and> dataSanitizer eng' = dataSanitizer eng
                \<and> sanitizedMessage logEntry' = sanitizedMessage logEntry
                \<and> classification logEntry' = Some (resultClassification r))))"
proof (intro conjI impI allI)
  note cs = consentStep_invalid[OF assms]
  assume "requireExplicitConsent (securityPolicy eng)"
  then have "scanLogEntry rt eng logEntry options =
      Some (createFailedScanResult rt (generateScanId rt) (message logEntry)
              [''Consent not provided or invalid''] None, tallied eng 0 1, logEntry)"
    by (simp add: scanLogEntry_def cs Let_def)
  then show "\<exists>r. scanLogEntry rt eng logEntry options = Some (r, tallied eng 0 1, logEntry)
                 \<and> failedByConsent logEntry r"
    using failedByConsent_created by blast
next
  note cs = consentStep_invalid[OF assms]
  fix found det
  assume soft: "\<not> requireExplicitConsent (securityPolicy eng)"
    and scan: "scanText (piiDetector eng) rt (message logEntry)
               (minConfidenceOf (securityPolicy eng) options) = Some (Inr found, det)"
  define eng2 where "eng2 = (tallied eng 0 1)\<lparr>piiDetector := det\<rparr>"
  define filtered where "filtered = applySecurityPolicyFiltering (securityPolicy eng) found"
  define risk where "risk = calculateRiskScore filtered (level logEntry)"
  define cls where "cls = classifyData (dateNow rt) filtered risk"
  define eng3 where "eng3 = generateSecurityAlerts rt eng2 (generateScanId rt) filtered cls (optUserId options)"
  have run: "scanLogEntry rt eng logEntry options =
      Some (completeScan rt (eng3\<lparr>dataSanitizer := dataSanitizer eng3\<rparr>) logEntry
              (generateScanId rt) filtered risk cls None)"
    using soft scan
    by (simp add: scanLogEntry_def cs Let_def minConfidenceOf_def autoSanitizeStep_invalid
        eng3_def eng2_def filtered_def risk_def cls_def cong: option.case_cong if_cong)
  have s3: "statistics eng3 = statistics (tallied eng 0 1)" "dataSanitizer eng3 = dataSanitizer eng"
    by (simp_all add: eng3_def eng2_def generateSecurityAlerts_fields)
  obtain r eng' logEntry' where c: "completeScan rt (eng3\<lparr>dataSanitizer := dataSanitizer eng3\<rparr>)
      logEntry (generateScanId rt) filtered risk cls None = (r, eng', logEntry')"
    by (cases "completeScan rt (eng3\<lparr>dataSanitizer := dataSanitizer eng3\<rparr>)
      logEntry (generateScanId rt) filtered risk cls None") blast
  have "scanSuccessful r" "detections r = filtered"
    "nonCompliantScans (statistics eng') = nonCompliantScans (statistics eng) + 1"
    "compliantScans (statistics eng') = compliantScans (statistics eng)"
    "dataSanitizer eng' = dataSanitizer eng"
    "sanitizedMessage logEntry' = sanitizedMessage logEntry"
    "classification logEntry' = Some (resultClassification r)"
    using c s3 by (auto simp add: completeScan_def Let_def updateStatistics_def tallied_def)
  then show "\<exists>r eng' logEntry'.
                scanLogEntry rt eng logEntry options = Some (r, eng', logEntry')
                \<and> scanSuccessful r
                \<and> detections r = applySecurityPolicyFiltering (securityPolicy eng) found
                \<and> nonCompliantScans (statistics eng') = nonCompliantScans (statistics eng) + 1
                \<and> compliantScans (statistics eng') = compliantScans (statistics eng)
                \<and> dataSanitizer eng' = dataSanitizer eng
                \<and> sanitizedMessage logEntry' = sanitizedMessage logEntry
                \<and> classification logEntry' = Some (resultClassification r)"
    using run c by (simp add: filtered_def)
qed


lemma example_refused:
  "consentRefused example_runtime (example_engine b x det) (example_options (Some ''u1''))"
  by (simp add: consentRefused_def example_options_def example_engine_def newSecurityEngine_def
      example_manager_def newConsentManager_def verifyConsent_def)

lemma example_soft_gate:
  "map_option (\<lambda>(r, eng', logEntry'). (scanSuccessful r, sanitizedMessage logEntry'))
     (scanLogEntry example_runtime (example_engine False 0.5 example_detector)
        (example_log ''ssn 123-45-6789'') (example_options (Some ''u1''))) = Some (True, None)"
proof -
  have cs: "consentStep example_runtime (example_engine False 0.5 example_detector)
      (example_options (Some ''u1'')) = (False, tallied (example_engine False 0.5 example_detector) 0 1)"
    by (rule consentStep_refused[OF example_refused])
  have gate: "False \<or> \<not> requireExplicitConsent
      (securityPolicy (example_engine False 0.5 example_detector))"
    by (simp add: example_engine_def newSecurityEngine_def example_policy_def)
  show ?thesis
    unfolding scanLogEntry_scanned[OF cs gate example_engine_scan] example_engine_filtering
    by (simp add: Let_def autoSanitizeStep_invalid completeScan_def example_log_def)
qed


lemma example_step:
  "\<exists>r san. sanitizedText r = ''ssn ***-**-****'' \<and> wasModified r
     \<and> (\<forall>det sid cls uid.
          autoSanitizeStep example_runtime
            (generateSecurityAlerts example_runtime
               ((example_engine b 0.5 example_detector)\<lparr>piiDetector := det\<rparr>) sid
               [detection Custom ''123'' 4 7 0.95 ''digits_literal'',
                detection Phone ''45-6789'' 8 15 0.51 ''phone_literal''] cls uid)
            True (example_options u) (example_log ''ssn 123-45-6789'')
            [detection Custom ''123'' 4 7 0.95 ''digits_literal'',
             detection Phone ''45-6789'' 8 15 0.51 ''phone_literal'']
          = (Inr (Some r), san))"
proof -
  define ds where "ds = [detection Custom ''123'' 4 7 0.95 ''digits_literal'',
      detection Phone ''45-6789'' 8 15 0.51 ''phone_literal'']"
  define E where "E = example_engine b 0.5 example_detector"
  obtain r san where san: "sanitizeText (newDataSanitizer ''salt'') example_runtime
      ''ssn 123-45-6789'' ds = (Inr r, san)"
    and r: "sanitizedText r = ''ssn ***-**-****''" "wasModified r"
    unfolding ds_def using example_sanitized[of "''salt''" example_runtime] by blast
  have should: "shouldAutoSanitize (securityPolicy E) ds"
    by (simp add: shouldAutoSanitize_def example_policy_def detection_def ds_def E_def
        example_engine_def newSecurityEngine_def)
  have fields: "dataSanitizer E = newDataSanitizer ''salt''"
    "autoSanitizationEnabled (securityPolicy E)"
    by (simp_all add: E_def example_engine_def newSecurityEngine_def example_policy_def)
  have step: "autoSanitizeStep example_runtime
      (generateSecurityAlerts example_runtime (E\<lparr>piiDetector := det\<rparr>) sid ds cls uid)
      True (example_options u) (example_log ''ssn 123-45-6789'') ds = (Inr (Some r), san)"
    for det sid cls uid
    using should
    by (simp add: autoSanitizeStep_def generateSecurityAlerts_fields fields
        example_options_def example_log_def san)
  show ?thesis
    using r step unfolding ds_def E_def by blast
qed

lemma example_run:
  assumes cs: "consentStep example_runtime (example_engine b 0.5 example_detector)
      (example_options u) = (True, example_engine b 0.5 example_detector)"
  shows "map_option (\<lambda>(r, eng', logEntry').
            (scanSuccessful r, sanitizedMessage logEntry', nonCompliantScans (statistics eng')))
     (scanLogEntry example_runtime (example_engine b 0.5 example_detector)
        (example_log ''ssn 123-45-6789'') (example_options u))
   = Some (True, Some ''ssn ***-**-****'', 0)"
proof -
  define ds where "ds = [detection Custom ''123'' 4 7 0.95 ''digits_literal'',
      detection Phone ''45-6789'' 8 15 0.51 ''phone_literal'']"
  define E where "E = example_engine b 0.5 example_detector"
  have gate: "True \<or> \<not> requireExplicitConsent (securityPolicy E)"
    by simp
  obtain r san where r: "sanitizedText r = ''ssn ***-**-****''" "wasModified r"
    and step: "\<And>det sid cls uid. autoSanitizeStep example_runtime
      (generateSecurityAlerts example_runtime (E\<lparr>piiDetector := det\<rparr>) sid ds cls uid)
      True (example_options u) (example_log ''ssn 123-45-6789'') ds = (Inr (Some r), san)"
    using example_step[of b u] unfolding ds_def E_def by blast
  have scan: "scanText (piiDetector E) example_runtime (message (example_log ''ssn 123-45-6789''))
      (minConfidenceOf (securityPolicy E) (example_options u))
      = Some (Inr ds, updatePerformanceMetrics example_detector 1)"
    unfolding ds_def E_def by (rule example_engine_scan)
  have filtering: "applySecurityPolicyFiltering (securityPolicy E) ds = ds"
    unfolding ds_def E_def by (rule example_engine_filtering)
  have stats: "nonCompliantScans (statistics E) = 0"
    by (simp add: E_def example_engine_def newSecurityEngine_def)
  show ?thesis
    unfolding E_def[symmetric] scanLogEntry_scanned[OF cs[folded E_def] gate scan] filtering
    by (simp add: Let_def step completeScan_def r updateStatistics_def
        generateSecurityAlerts_fields stats)
qed

lemma example_unchecked:
  "map_option (\<lambda>(r, eng', logEntry').
            (scanSuccessful r, sanitizedMessage logEntry', nonCompliantScans (statistics eng')))
     (scanLogEntry example_runtime (example_engine False 0.5 example_detector)
        (example_log ''ssn 123-45-6789'') (example_options None))
   = Some (True, Some ''ssn ***-**-****'', 0)"
  by (rule example_run) (simp add: consentStep_def example_options_def)

theorem C3_consent_gate_witness:
  "(\<exists>r. scanLogEntry example_runtime (example_engine True 0.5 example_detector)
          (example_log ''ssn 123-45-6789'') (example_options (Some ''u1''))
        = Some (r, tallied (example_engine True 0.5 example_detector) 0 1,
                example_log ''ssn 123-45-6789'')
        \<and> failedByConsent (example_log ''ssn 123-45-6789'') r)
   \<and> (\<exists>r eng' logEntry'.
          scanLogEntry example_runtime (example_engine False 0.5 example_detector)
            (example_log ''ssn 123-45-6789'') (example_options (Some ''u1''))
          = Some (r, eng', logEntry')
          \<and> scanSuccessful r
          \<and> detections r = [detection Custom ''123'' 4 7 0.95 ''digits_literal'',
                             detection Phone ''45-6789'' 8 15 0.51 ''phone_literal'']
          \<and> nonCompliantScans (statistics eng') = 1
          \<and> sanitizedMessage logEntry' = None)"
proof -
  define ds where "ds = [detection Custom ''123'' 4 7 0.95 ''digits_literal'',
      detection Phone ''45-6789'' 8 15 0.51 ''phone_literal'']"
  define E where "E b = example_engine b 0.5 example_detector" for b
  define L where "L = example_log ''ssn 123-45-6789''"
  define opts where "opts = example_options (Some ''u1'')"
  have h: "optUserId opts = Some ''u1''" "''u1'' \<noteq> []" "optSkipConsentCheck opts \<noteq> Some True"
    by (simp_all add: opts_def example_options_def)
  have invalid: "\<not> isValid (verifyConsent example_runtime (consentManager (E b)) ''u1'' (purposeOf opts))"
    for b
    using example_refused[of b "0.5" example_detector]
    by (simp add: consentRefused_def opts_def E_def example_options_def)
  have policy: "requireExplicitConsent (securityPolicy (E True))"
    "\<not> requireExplicitConsent (securityPolicy (E False))"
    "nonCompliantScans (statistics (E False)) = 0"
    "sanitizedMessage L = None"
    by (simp_all add: E_def L_def example_engine_def newSecurityEngine_def example_policy_def
        example_log_def)
  have scan: "scanText (piiDetector (E False)) example_runtime (message L)
      (minConfidenceOf (securityPolicy (E False)) opts)
      = Some (Inr ds, updatePerformanceMetrics example_detector 1)"
    unfolding ds_def E_def L_def opts_def by (rule example_engine_scan)
  have filtering: "applySecurityPolicyFiltering (securityPolicy (E False)) ds = ds"
    unfolding ds_def E_def by (rule example_engine_filtering)
  have hard: "\<exists>r. scanLogEntry example_runtime (E True) L opts = Some (r, tallied (E True) 0 1, L)
      \<and> failedByConsent L r"
    using C3_consent_gate[OF h invalid[of True], where logEntry = L] policy(1) by blast
  have soft: "\<exists>r eng' logEntry'. scanLogEntry example_runtime (E False) L opts = Some (r, eng', logEntry')
      \<and> scanSuccessful r \<and> detections r = ds \<and> nonCompliantScans (statistics eng') = 1
      \<and> sanitizedMessage logEntry' = None"
    using C3_consent_gate[OF h invalid[of False], where logEntry = L] policy(2,3,4) scan filtering
    by fastforce
  show ?thesis
    using hard soft unfolding ds_def E_def L_def opts_def by blast
qed

theorem C3_consent_gate_counterexample:
  "\<not> requireExplicitConsent (securityPolicy (example_engine False 0.5 example_detector))
   \<and> consentRefused example_runtime (example_engine False 0.5 example_detector)
        (example_options (Some ''u1''))
   \<and> map_option (\<lambda>(r, eng', logEntry'). (scanSuccessful r, sanitizedMessage logEntry'))
        (scanLogEntry example_runtime (example_engine False 0.5 example_detector)
           (example_log ''ssn 123-45-6789'') (example_options (Some ''u1''))) = Some (True, None)
   \<and> map_option (\<lambda>(r, eng', logEntry').
            (scanSuccessful r, sanitizedMessage logEntry', nonCompliantScans (statistics eng')))
        (scanLogEntry example_runtime (example_engine False 0.5 example_detector)
           (example_log ''ssn 123-45-6789'') (example_options None))
      = Some (True, Some ''ssn ***-**-****'', 0)"
proof (intro conjI)
  show "\<not> requireExplicitConsent (securityPolicy (example_engine False 0.5 example_detector))"
    by (simp add: example_engine_def newSecurityEngine_def example_policy_def)
qed (rule example_refused example_soft_gate example_unchecked)+

text \<open>
  A user id that is the empty string is no user id for the guard of the consent check:
  no consent is verified and nothing is tallied, whatever the policy requires.
\<close>

lemma consentStep_empty_userId:
  "optUserId options = Some [] \<Longrightarrow> consentStep rt eng options = (True, eng)"
  by (simp add: consentStep_def)

lemma example_empty_userId:
  "requireExplicitConsent (securityPolicy (example_engine True 0.5 example_detector))
   \<and> \<not> isValid (verifyConsent example_runtime
            (consentManager (example_engine True 0.5 example_detector)) [] Logging)
   \<and> map_option (\<lambda>(r, eng', logEntry').
            (scanSuccessful r, sanitizedMessage logEntry', nonCompliantScans (statistics eng')))
        (scanLogEntry example_runtime (example_engine True 0.5 example_detector)
           (example_log ''ssn 123-45-6789'') (example_options (Some [])))
      = Some (True, Some ''ssn ***-**-****'', 0)"
proof (intro conjI)
  show "map_option (\<lambda>(r, eng', logEntry').
            (scanSuccessful r, sanitizedMessage logEntry', nonCompliantScans (statistics eng')))
        (scanLogEntry example_runtime (example_engine True 0.5 example_detector)
           (example_log ''ssn 123-45-6789'') (example_options (Some [])))
      = Some (True, Some ''ssn ***-**-****'', 0)"
    by (rule example_run) (simp add: consentStep_empty_userId example_options_def)
qed (simp_all add: example_engine_def newSecurityEngine_def example_policy_def
        example_manager_def newConsentManager_def verifyConsent_def)


subsection \<open>A scan that fails after the alerts are raised\<close>

lemma domain_ssn_matches:
  "findPatternMatches ssn_literal ''ssn 123-45-6789 @example.com'' =
     Some (Inr [detection SSN ''123-45-6789'' 4 15 0.8 ''ssn_literal''])"
  by (simp add: findPatternMatches_def findPatternMatches_loop.simps example_defs runValidator_def
      detectionOf_def validateContext_def substring_def toLowerCase_def toLowerChar_def
      applyTypeSpecificValidation_def validateSSN_def digitsOf_def isDigit_def Let_def)

lemma domain_email_matches:
  "findPatternMatches email_literal ''ssn 123-45-6789 @example.com'' =
     Some (Inr [detection Email ''@example.com'' 16 28 0.27 ''email_literal''])"
  by (simp add: findPatternMatches_def findPatternMatches_loop.simps example_defs runValidator_def
      email_literal_def detectionOf_def applyTypeSpecificValidation_def validateEmail_def
      emailRegexTest_def isWhitespace_def Let_def)

lemma domain_scan:
  "scanText domain_detector example_runtime ''ssn 123-45-6789 @example.com'' 0.2 =
     Some (Inr [detection SSN ''123-45-6789'' 4 15 0.8 ''ssn_literal'',
                detection Email ''@example.com'' 16 28 0.27 ''email_literal''],
           updatePerformanceMetrics domain_detector 1)"
proof -
  have "collectDetections domain_detector ''ssn 123-45-6789 @example.com'' 0.2 =
     Some (Inr [detection SSN ''123-45-6789'' 4 15 0.8 ''ssn_literal'',
                detection Email ''@example.com'' 16 28 0.27 ''email_literal''])"
    by (simp add: collectDetections_def domain_detector_def registeredPatterns_def
        domain_ssn_matches domain_email_matches detection_def)
  then show ?thesis
    unfolding scanText_def
    by (simp add: removeOverlappingDetections_def array_sort_def
      byConfidenceThenStart_def byStart_def overlaps_def detection_def Let_def
      example_runtime_def)
qed

lemma domain_throws:
  "sanitizeText (newDataSanitizer salt) rt ''ssn 123-45-6789 @example.com''
     [detection SSN ''123-45-6789'' 4 15 0.8 ''ssn_literal'',
      detection Email ''@example.com'' 16 28 0.27 ''email_literal'']
   = (Inl (RepeatRangeError (- 1)), newDataSanitizer salt)"
  by (simp add: sanitizeText_def array_sort_def detection_def newDataSanitizer_def
      getStrategyForPIIType_def defaultTypeStrategies_def applySanitizationStrategy_def
      partialMaskValue_def repeat_def Let_def byStartDescending_def split_def)


lemma domain_run:
  "\<exists>r eng'. scanLogEntry example_runtime (example_engine False 0.2 domain_detector)
        (example_log ''ssn 123-45-6789 @example.com'') (example_options None)
      = Some (r, eng', example_log ''ssn 123-45-6789 @example.com'')
      \<and> \<not> scanSuccessful r \<and> scanErrors r = [''Invalid count value: -1'']
      \<and> length (alerts eng') = 1"
proof -
  define ds where "ds = [detection SSN ''123-45-6789'' 4 15 0.8 ''ssn_literal'',
      detection Email ''@example.com'' 16 28 0.27 ''email_literal'']"
  define E where "E = example_engine False 0.2 domain_detector"
  define L where "L = example_log ''ssn 123-45-6789 @example.com''"
  have cs: "consentStep example_runtime E (example_options None) = (True, E)"
    by (simp add: consentStep_def example_options_def)
  have gate: "True \<or> \<not> requireExplicitConsent (securityPolicy E)"
    by simp
  have fields: "piiDetector E = domain_detector" "dataSanitizer E = newDataSanitizer ''salt''"
    "autoSanitizationEnabled (securityPolicy E)" "alerts E = []"
    by (simp_all add: E_def example_engine_def newSecurityEngine_def example_policy_def)
  have threshold: "minConfidenceOf (securityPolicy E) (example_options None) = 0.2"
    by (simp add: minConfidenceOf_def E_def example_engine_def newSecurityEngine_def
        example_policy_def example_options_def)
  have message: "message L = ''ssn 123-45-6789 @example.com''"
    by (simp add: L_def example_log_def)
  have scan: "scanText (piiDetector E) example_runtime (message L)
      (minConfidenceOf (securityPolicy E) (example_options None))
      = Some (Inr ds, updatePerformanceMetrics domain_detector 1)"
    unfolding fields threshold message ds_def by (rule domain_scan)
  have filtering: "applySecurityPolicyFiltering (securityPolicy E) ds = ds"
    by (simp add: applySecurityPolicyFiltering_def E_def example_engine_def
        newSecurityEngine_def example_policy_def detection_def ds_def)
  have should: "shouldAutoSanitize (securityPolicy E) ds"
    by (simp add: shouldAutoSanitize_def example_policy_def detection_def ds_def E_def
        example_engine_def newSecurityEngine_def)
  have throws: "sanitizeText (newDataSanitizer ''salt'') example_runtime (message L) ds
      = (Inl (RepeatRangeError (- 1)), newDataSanitizer ''salt'')"
    unfolding message ds_def by (rule domain_throws)
  have step: "autoSanitizeStep example_runtime
      (generateSecurityAlerts example_runtime (E\<lparr>piiDetector := det\<rparr>) sid ds cls uid)
      True (example_options None) L ds = (Inl (RepeatRangeError (- 1)), newDataSanitizer ''salt'')"
    for det sid cls uid
    using should
    by (simp add: autoSanitizeStep_def generateSecurityAlerts_fields fields
        example_options_def throws)
  have restricted: "sensitivityLevel (classifyData now ds risk) = Restricted" for now risk
    by (simp add: classifyData_def sensitivityOf_def ds_def detection_def)
  have alert: "length (alerts (generateSecurityAlerts example_runtime (E\<lparr>piiDetector := det\<rparr>)
      sid ds (classifyData now ds risk) uid)) = 1" for det sid now risk uid
    by (simp add: generateSecurityAlerts_def restricted Let_def fields)
      (simp add: ds_def)
  have message: "errorMessage (RepeatRangeError (- 1)) = ''Invalid count value: -1''"
  proof -
    have d: "decimal 1 = ''1''"
      by (subst decimal.simps) (simp add: char_of_def bit_iff_odd)
    have "numberToString (- 1) = ''-1''"
      unfolding numberToString_def using d by simp
    then show ?thesis
      by (simp add: errorMessage_def)
  qed
  show ?thesis
    unfolding E_def[symmetric] L_def[symmetric] scanLogEntry_scanned[OF cs gate scan] filtering
    by (simp add: Let_def step alert message createFailedScanResult_def)
qed


text \<open>
  Claim C9. What a failed scan leaves unchanged. For every call of \<open>scanLogEntry\<close> that
  returns a failed result, of the consent gate or of a caught exception: the caller's
  log entry is as it was (neither classification nor sanitized message is written), the
  scan history is as it was, the statistics are as they were except for the two counts
  of the consent tally, and the consent manager and the policy are as they were. Where
  the failure is that of the consent gate, the whole engine is as it was except for one
  more non-compliant scan. The code has no rollback, though: what the pipeline wrote
  before an exception stays written, which are the metrics of the detector, the alerts
  and the audit trail and cache of the sanitizer.
\<close>

theorem C9_failed_scan_state:
  assumes "scanLogEntry rt eng logEntry options = Some (r, eng', logEntry')"
    and "\<not> scanSuccessful r"
  shows "logEntry' = logEntry
     \<and> scanHistory eng' = scanHistory eng
     \<and> statistics eng' =
         (statistics eng)\<lparr>compliantScans := compliantScans (statistics eng'),
                           nonCompliantScans := nonCompliantScans (statistics eng')\<rparr>
     \<and> consentManager eng' = consentManager eng
     \<and> securityPolicy eng' = securityPolicy eng
     \<and> (consentRefused rt eng options \<and> requireExplicitConsent (securityPolicy eng)
          \<longrightarrow> eng' = tallied eng 0 1)"
proof -
  note f = scanLogEntry_failed[OF assms]
  have s: "statistics eng' = statistics (snd (consentStep rt eng options))"
    using f by blast
  have "statistics eng' =
         (statistics eng)\<lparr>compliantScans := compliantScans (statistics eng'),
                           nonCompliantScans := nonCompliantScans (statistics eng')\<rparr>"
    unfolding s by (rule consentStep_statistics)
  moreover have "eng' = tallied eng 0 1"
    if "consentRefused rt eng options" "requireExplicitConsent (securityPolicy eng)"
    using f consentStep_refused[OF that(1)] that(2) by simp
  ultimately show ?thesis
    using f by blast
qed

theorem C9_failed_scan_state_witness:
  "\<exists>r eng'. scanLogEntry example_runtime (example_engine False 0.2 domain_detector)
        (example_log ''ssn 123-45-6789 @example.com'') (example_options None)
      = Some (r, eng', example_log ''ssn 123-45-6789 @example.com'')
      \<and> \<not> scanSuccessful r
      \<and> scanHistory eng' = []
      \<and> totalScans (statistics eng') = 0
      \<and> consentManager eng' = example_manager"
proof -
  obtain r eng' where run: "scanLogEntry example_runtime (example_engine False 0.2 domain_detector)
        (example_log ''ssn 123-45-6789 @example.com'') (example_options None)
      = Some (r, eng', example_log ''ssn 123-45-6789 @example.com'')"
    and failed: "\<not> scanSuccessful r"
    using domain_run by blast
  note c9 = C9_failed_scan_state[OF run failed]
  have "scanHistory eng' = scanHistory (example_engine False 0.2 domain_detector)"
    "consentManager eng' = consentManager (example_engine False 0.2 domain_detector)"
    using c9 by blast+
  moreover have "totalScans (statistics eng')
      = totalScans (statistics (example_engine False 0.2 domain_detector))"
    using arg_cong[OF c9[THEN conjunct2, THEN conjunct2, THEN conjunct1], of totalScans]
    by simp
  ultimately have "scanHistory eng' = []" "totalScans (statistics eng') = 0"
    "consentManager eng' = example_manager"
    by (simp_all add: example_engine_def newSecurityEngine_def)
  then show ?thesis
    using run failed by blast
qed

theorem C9_failed_scan_state_counterexample:
  "alerts (example_engine False 0.2 domain_detector) = []
   \<and> (\<exists>r eng'. scanLogEntry example_runtime (example_engine False 0.2 domain_detector)
          (example_log ''ssn 123-45-6789 @example.com'') (example_options None)
        = Some (r, eng', example_log ''ssn 123-45-6789 @example.com'')
        \<and> \<not> scanSuccessful r \<and> scanErrors r = [''Invalid count value: -1'']
        \<and> length (alerts eng') = 1)"
proof
  show "alerts (example_engine False 0.2 domain_detector) = []"
    by (simp add: example_engine_def newSecurityEngine_def)
qed (rule domain_run)

end
